theory Spec2Isabelle
  imports Main "HOL-Library.Sublist"
begin

section \<open>Strings\<close>

text \<open>
  JavaScript strings are modelled as \<^typ>\<open>string\<close>.  Request targets, header values and
  paths of this server are ASCII (Node's URL parser percent-encodes everything else), so
  one \<^typ>\<open>char\<close> is one UTF-16 code unit and one byte.
\<close>

text \<open>\<^verbatim>\<open>String.prototype.includes\<close>: the second string occurs in the first as a
  contiguous substring.\<close>

fun str_includes :: "string \<Rightarrow> string \<Rightarrow> bool" where
  "str_includes [] sub = (sub = [])"
| "str_includes (c # cs) sub = (prefix sub (c # cs) \<or> str_includes cs sub)"

text \<open>\<^verbatim>\<open>String.prototype.startsWith\<close>.\<close>

definition startsWith :: "string \<Rightarrow> string \<Rightarrow> bool" where
  "startsWith s p = prefix p s"

text \<open>\<^verbatim>\<open>String.prototype.toLowerCase\<close> on ASCII: only \<open>A\<close>..\<open>Z\<close> change.\<close>

definition lower_char :: "char \<Rightarrow> char" where
  "lower_char c =
     (case map_of (zip ''ABCDEFGHIJKLMNOPQRSTUVWXYZ'' ''abcdefghijklmnopqrstuvwxyz'') c of
        Some l \<Rightarrow> l
      | None \<Rightarrow> c)"

definition toLowerCase :: "string \<Rightarrow> string" where
  "toLowerCase s = map lower_char s"

text \<open>Splitting at separator characters: \<open>n\<close> separators give \<open>n + 1\<close> pieces.\<close>

fun split_on :: "(char \<Rightarrow> bool) \<Rightarrow> string \<Rightarrow> string list" where
  "split_on sep [] = [[]]"
| "split_on sep (c # cs) =
     (if sep c then [] # split_on sep cs
      else (case split_on sep cs of
              [] \<Rightarrow> [[c]]
            | s # ss \<Rightarrow> (c # s) # ss))"

fun join_with :: "string \<Rightarrow> string list \<Rightarrow> string" where
  "join_with sep [] = []"
| "join_with sep [s] = s"
| "join_with sep (s # t # ss) = s @ sep @ join_with sep (t # ss)"

definition is_slash :: "char \<Rightarrow> bool" where
  "is_slash c = (c = CHR ''/'')"

text \<open>Decimal rendering of a number, as a template literal does it.\<close>

fun digits :: "nat \<Rightarrow> string" where
  "digits n =
     (if n < 10 then [''0123456789'' ! n]
      else digits (n div 10) @ [''0123456789'' ! (n mod 10)])"

section \<open>Node's \<^verbatim>\<open>path\<close> module (POSIX flavour)\<close>

text \<open>
  The server calls \<^verbatim>\<open>path.normalize\<close>, \<^verbatim>\<open>path.join\<close>, \<^verbatim>\<open>path.resolve\<close> and
  \<^verbatim>\<open>path.extname\<close>.  They are library functions; the definitions below follow
  \<^verbatim>\<open>lib/path.js\<close> (the \<^verbatim>\<open>posix\<close> object) segment by segment.

  \<^verbatim>\<open>normalizeString(path, allowAboveRoot)\<close> walks the segments between slashes: an
  empty segment and \<open>.\<close> are dropped; \<open>..\<close> removes the last kept segment unless there is
  none or it is itself \<open>..\<close>, in which case \<open>..\<close> is kept only when \<open>allowAboveRoot\<close>;
  every other segment is kept.  The kept segments are joined by single slashes.
\<close>

definition normalize_step :: "bool \<Rightarrow> string list \<Rightarrow> string \<Rightarrow> string list" where
  "normalize_step allowAboveRoot res seg =
     (if seg = [] \<or> seg = ''.'' then res
      else if seg = ''..'' then
        (if res \<noteq> [] \<and> last res \<noteq> ''..'' then butlast res
         else if allowAboveRoot then res @ [''..'']
         else res)
      else res @ [seg])"

definition normalizeString :: "string \<Rightarrow> bool \<Rightarrow> string" where
  "normalizeString path allowAboveRoot =
     join_with ''/'' (foldl (normalize_step allowAboveRoot) [] (split_on is_slash path))"

definition path_normalize :: "string \<Rightarrow> string" where
  "path_normalize p =
     (if p = [] then ''.''
      else
        let isAbsolute = (hd p = CHR ''/'');
            trailingSeparator = (last p = CHR ''/'');
            path = normalizeString p (\<not> isAbsolute)
        in if path = [] then
             (if isAbsolute then ''/'' else if trailingSeparator then ''./'' else ''.'')
           else
             (let path' = (if trailingSeparator then path @ ''/'' else path)
              in if isAbsolute then CHR ''/'' # path' else path'))"

text \<open>\<^verbatim>\<open>path.join(a, b)\<close>: the non-empty arguments joined by a slash, then normalized.\<close>

definition path_join :: "string \<Rightarrow> string \<Rightarrow> string" where
  "path_join a b =
     (let parts = filter (\<lambda>s. s \<noteq> []) [a, b]
      in if parts = [] then ''.'' else path_normalize (join_with ''/'' parts))"

text \<open>
  \<^verbatim>\<open>path.resolve(p)\<close> with one argument.  The working directory \<open>cwd\<close> (what
  \<^verbatim>\<open>process.cwd()\<close> returns) is prepended when \<open>p\<close> is not absolute.  The result has no
  trailing slash.
\<close>

definition path_resolve :: "string \<Rightarrow> string \<Rightarrow> string" where
  "path_resolve cwd p =
     (let (resolvedPath, resolvedAbsolute) =
            (if p = [] then ([], False) else (p @ ''/'', hd p = CHR ''/''));
          (resolvedPath, resolvedAbsolute) =
            (if resolvedAbsolute \<or> cwd = [] then (resolvedPath, resolvedAbsolute)
             else (cwd @ ''/'' @ resolvedPath, hd cwd = CHR ''/''));
          resolvedPath = normalizeString resolvedPath (\<not> resolvedAbsolute)
      in if resolvedAbsolute then CHR ''/'' # resolvedPath
         else if resolvedPath \<noteq> [] then resolvedPath else ''.'')"

text \<open>
  \<^verbatim>\<open>path.extname(p)\<close>: trailing slashes are ignored, the base name is what follows the
  last remaining slash; the extension runs from the last dot of the base name to its end,
  and is empty when the base name has no dot, starts with its only relevant dot, or is
  \<open>..\<close>.
\<close>

definition strip_trailing_slashes :: "string \<Rightarrow> string" where
  "strip_trailing_slashes p = rev (dropWhile is_slash (rev p))"

definition basename_part :: "string \<Rightarrow> string" where
  "basename_part p = rev (takeWhile (\<lambda>c. \<not> is_slash c) (rev (strip_trailing_slashes p)))"

definition path_extname :: "string \<Rightarrow> string" where
  "path_extname p =
     (let base = basename_part p;
          ext = rev (takeWhile (\<lambda>c. c \<noteq> CHR ''.'') (rev base))
      in if CHR ''.'' \<notin> set base then []
         else if length ext + 1 = length base then []
         else if base = ''..'' then []
         else CHR ''.'' # ext)"

section \<open>The URL constructor, as far as the server uses it\<close>

text \<open>
  The server evaluates \<^verbatim>\<open>new URL(req.url, `http://${req.headers.host}`).pathname\<close> inside a
  \<^verbatim>\<open>try\<close> block.  \<^verbatim>\<open>URL\<close> is Node's implementation of the WHATWG URL Standard, a library.
  Three parts of it are kept apart:

  \<^item> whether the base \<^verbatim>\<open>http://<host>\<close> parses at all (host and port syntax) is a
    parameter, \<open>URL_base_ok\<close>; a base that does not parse makes the constructor throw;
  \<^item> for a request target in origin form (it starts with one slash, and consists of
    printable ASCII characters that the path state copies unchanged) the path state of
    the standard is modelled below: the target is cut at the first \<open>?\<close> or \<open>#\<close>, split
    at slashes and backslashes, single-dot segments are skipped and double-dot segments remove
    the segment before them.  Both kinds are recognised in their percent-encoded forms,
    ASCII case-insensitively.  Nothing is percent-decoded, and no percent sign makes the
    parser fail;
  \<^item> every other target (absolute form, a target starting with two slashes, characters
    the parser would strip or percent-encode) is left to a parameter, \<open>URL_other\<close>.  Of
    its result only the shape is fixed.  A target that Node's HTTP parser hands to the
    handler is in origin form, an asterisk, or in absolute form with \<^verbatim>\<open>://\<close> after its
    scheme; the path of such a URL is a list of segments, and the \<^verbatim>\<open>pathname\<close> getter
    writes a slash before each of them.  The list is empty only for a URL of a scheme
    other than \<^verbatim>\<open>http\<close> (and the other special schemes) that has no path: its pathname
    is the empty string.
\<close>

definition backslash :: char where
  "backslash = CHR 0x5C"

definition url_plain_chars :: string where
  "url_plain_chars =
     ''!#$%&()*+,-./0123456789:;=?@ABCDEFGHIJKLMNOPQRSTUVWXYZ[]_abcdefghijklmnopqrstuvwxyz|~''
     @ [CHR 0x27, CHR 0x5C]"

definition origin_form :: "string \<Rightarrow> bool" where
  "origin_form u =
     (case u of
        [] \<Rightarrow> False
      | c # rest \<Rightarrow>
          c = CHR ''/'' \<and>
          (case rest of [] \<Rightarrow> True | d # _ \<Rightarrow> d \<noteq> CHR ''/'' \<and> d \<noteq> backslash) \<and>
          list_all (\<lambda>x. x \<in> set url_plain_chars) u)"

definition is_single_dot :: "string \<Rightarrow> bool" where
  "is_single_dot seg = (toLowerCase seg \<in> set [''.'', ''%2e''])"

definition is_double_dot :: "string \<Rightarrow> bool" where
  "is_double_dot seg = (toLowerCase seg \<in> set [''..'', ''.%2e'', ''%2e.'', ''%2e%2e''])"

text \<open>The path state: \<open>path\<close> is the URL's path so far, the second argument the segments
  still to come.  After the last segment no slash follows.\<close>

fun url_path_state :: "string list \<Rightarrow> string list \<Rightarrow> string list" where
  "url_path_state path [] = path"
| "url_path_state path (seg # rest) =
     url_path_state
       (if is_double_dot seg then
          (if rest \<noteq> [] then butlast path else butlast path @ [[]])
        else if is_single_dot seg then
          (if rest \<noteq> [] then path else path @ [[]])
        else path @ [seg])
       rest"

definition url_pathname_origin :: "string \<Rightarrow> string" where
  "url_pathname_origin u =
     (let path_part = takeWhile (\<lambda>c. c \<noteq> CHR ''?'' \<and> c \<noteq> CHR ''#'') (tl u);
          segs = split_on (\<lambda>c. c = CHR ''/'' \<or> c = backslash) path_part
      in concat (map (\<lambda>s. CHR ''/'' # s) (url_path_state [] segs)))"

section \<open>Dates\<close>

text \<open>
  A \<^verbatim>\<open>Date\<close> is its time value, an integer number of milliseconds since the epoch.
  \<^verbatim>\<open>Date.prototype.toUTCString\<close> is fixed by ECMAScript:
  \<^verbatim>\<open>Www, DD Mon YYYY HH:mm:ss GMT\<close>.  It drops the milliseconds.
\<close>

definition civil_from_days :: "int \<Rightarrow> int \<times> int \<times> int" where
  "civil_from_days d =
     (let z = d + 719468;
          era = z div 146097;
          doe = z mod 146097;
          yoe = (doe - doe div 1460 + doe div 36524 - doe div 146096) div 365;
          y = yoe + era * 400;
          doy = doe - (365 * yoe + yoe div 4 - yoe div 100);
          mp = (5 * doy + 2) div 153;
          dd = doy - (153 * mp + 2) div 5 + 1;
          m = (if mp < 10 then mp + 3 else mp - 9)
      in (if m \<le> 2 then y + 1 else y, m, dd))"

definition pad :: "nat \<Rightarrow> int \<Rightarrow> string" where
  "pad w n = (let ds = digits (nat n) in replicate (w - length ds) CHR ''0'' @ ds)"

definition toUTCString :: "int \<Rightarrow> string" where
  "toUTCString t =
     (if t < - 8640000000000000 \<or> 8640000000000000 < t then ''Invalid Date''
      else
        let day = t div 86400000;
            ms = t mod 86400000;
            (y, m, d) = civil_from_days day
        in [''Sun'', ''Mon'', ''Tue'', ''Wed'', ''Thu'', ''Fri'', ''Sat''] ! nat ((day + 4) mod 7)
           @ '', '' @ pad 2 d @ '' ''
           @ [''Jan'', ''Feb'', ''Mar'', ''Apr'', ''May'', ''Jun'',
              ''Jul'', ''Aug'', ''Sep'', ''Oct'', ''Nov'', ''Dec''] ! nat (m - 1)
           @ '' '' @ (if y < 0 then ''-'' else []) @ pad 4 (abs y)
           @ '' '' @ pad 2 (ms div 3600000)
           @ '':'' @ pad 2 (ms mod 3600000 div 60000)
           @ '':'' @ pad 2 (ms mod 60000 div 1000)
           @ '' GMT'')"

text \<open>A relational comparison of two \<^verbatim>\<open>Date\<close> objects compares their time values, and
  is false as soon as one of them is \<^verbatim>\<open>NaN\<close> (an invalid date, \<open>None\<close>).\<close>

definition date_le :: "int option \<Rightarrow> int option \<Rightarrow> bool" where
  "date_le a b = (case a of None \<Rightarrow> False | Some x \<Rightarrow> (case b of None \<Rightarrow> False | Some y \<Rightarrow> x \<le> y))"

section \<open>The environment of the server\<close>

text \<open>
  Everything the handler reads from outside: the two configuration inputs of
  \<^verbatim>\<open>WEBROOT\<close>, the parts of the URL constructor that are not modelled, \<^verbatim>\<open>Date.parse\<close>
  (\<open>None\<close> is \<^verbatim>\<open>NaN\<close>), and the file system.  The working directory of a process is an
  absolute path: \<open>cwd_rest\<close> is what follows its first slash.  \<open>URL_other\<close> gives the
  segments of the URL's path, \<open>None\<close> when the constructor throws.  \<open>fs_stat\<close> answers \<^verbatim>\<open>fs.stat\<close> with the
  error's \<^verbatim>\<open>code\<close> or the \<^verbatim>\<open>Stats\<close> object; \<open>fs_read\<close> answers \<^verbatim>\<open>fs.createReadStream\<close>
  with the bytes the stream delivers and the code of the error that ends it, if one does.
\<close>

record stats =
  isDirectory :: bool
  st_size :: nat
  mtime :: int

record env =
  WEBROOT_var :: "string option"
  cwd_rest :: string
  URL_base_ok :: "string \<Rightarrow> bool"
  URL_other :: "string \<Rightarrow> string \<Rightarrow> string list option"
  Date_parse :: "string \<Rightarrow> int option"
  fs_stat :: "string \<Rightarrow> string + stats"
  fs_read :: "string \<Rightarrow> string \<times> string option"

text \<open>\<^verbatim>\<open>process.cwd()\<close>\<close>

definition cwd :: "env \<Rightarrow> string" where
  "cwd env = CHR ''/'' # cwd_rest env"

text \<open>\<^verbatim>\<open>new URL(input, base).pathname\<close>; \<open>None\<close> when the constructor throws.\<close>

definition URL_pathname :: "env \<Rightarrow> string \<Rightarrow> string \<Rightarrow> string option" where
  "URL_pathname env input base =
     (if \<not> URL_base_ok env base then None
      else if origin_form input then Some (url_pathname_origin input)
      else (case URL_other env input base of
              None \<Rightarrow> None
            | Some segs \<Rightarrow> Some (concat (map (\<lambda>s. CHR ''/'' # s) segs))))"

text \<open>\<^verbatim>\<open>const WEBROOT = path.resolve(process.env.WEBROOT || './public')\<close>\<close>

definition WEBROOT :: "env \<Rightarrow> string" where
  "WEBROOT env =
     path_resolve (cwd env)
       (case WEBROOT_var env of
          None \<Rightarrow> ''./public''
        | Some v \<Rightarrow> if v \<noteq> [] then v else ''./public'')"

text \<open>\<^verbatim>\<open>MIME_TYPES\<close>, the table of the source.\<close>

definition MIME_TYPES :: "(string \<times> string) list" where
  "MIME_TYPES =
     [(''.html'', ''text/html''),
      (''.css'', ''text/css''),
      (''.js'', ''application/javascript''),
      (''.json'', ''application/json''),
      (''.png'', ''image/png''),
      (''.jpg'', ''image/jpeg''),
      (''.jpeg'', ''image/jpeg''),
      (''.gif'', ''image/gif''),
      (''.svg'', ''image/svg+xml''),
      (''.ico'', ''image/x-icon''),
      (''.txt'', ''text/plain''),
      (''.xml'', ''application/xml''),
      (''.pdf'', ''application/pdf''),
      (''.woff'', ''font/woff''),
      (''.woff2'', ''font/woff2''),
      (''.ttf'', ''font/ttf''),
      (''.webp'', ''image/webp'')]"

section \<open>Requests, responses and the handler's effects\<close>

text \<open>
  The fields of \<^verbatim>\<open>req\<close> the handler reads.  A header that was not sent is \<open>None\<close>
  (\<^verbatim>\<open>undefined\<close>).
\<close>

record request =
  req_method :: string
  url :: string
  host :: "string option"
  if_modified_since :: "string option"
  remoteAddress :: string

datatype header_value = Str string | Num nat

text \<open>
  The state of \<^verbatim>\<open>res\<close>, Node's \<^verbatim>\<open>ServerResponse\<close>: the status line and headers given to
  \<^verbatim>\<open>writeHead\<close>, the body bytes accepted so far, whether \<^verbatim>\<open>end\<close> was called and whether the
  response was destroyed by a failing stream.  \<open>hasBody\<close> is Node's \<^verbatim>\<open>_hasBody\<close>: it is
  false from the start for a \<^verbatim>\<open>HEAD\<close> request, \<^verbatim>\<open>writeHead\<close> clears it for the statuses
  1xx, 204 and 304, and while it is false \<^verbatim>\<open>write\<close> and \<^verbatim>\<open>end\<close> ignore their chunk.
\<close>

record response =
  hasBody :: bool
  status :: "nat option"
  headers :: "(string \<times> header_value) list"
  body :: string
  finished :: bool
  destroyed :: bool

definition ServerResponse :: "request \<Rightarrow> response" where
  "ServerResponse req =
     \<lparr>hasBody = (req_method req \<noteq> ''HEAD''), status = None, headers = [], body = [],
      finished = False, destroyed = False\<rparr>"

definition writeHead :: "nat \<Rightarrow> (string \<times> header_value) list \<Rightarrow> response \<Rightarrow> response" where
  "writeHead statusCode hs r =
     r\<lparr>status := Some statusCode, headers := hs,
       hasBody := (if statusCode = 204 \<or> statusCode = 304 \<or> (100 \<le> statusCode \<and> statusCode \<le> 199)
                   then False else hasBody r)\<rparr>"

definition res_write :: "string \<Rightarrow> response \<Rightarrow> response" where
  "res_write chunk r = (if hasBody r then r\<lparr>body := body r @ chunk\<rparr> else r)"

definition res_end :: "string \<Rightarrow> response \<Rightarrow> response" where
  "res_end chunk r = (res_write chunk r)\<lparr>finished := True\<rparr>"

definition res_destroy :: "response \<Rightarrow> response" where
  "res_destroy r = r\<lparr>destroyed := True\<rparr>"

text \<open>
  What one call of the handler leaves behind: the response, the lines given to the log
  (remote address, method, raw target, status, bytes; the time stamp is left out) and the
  file system calls in the order they were made.
\<close>

datatype fs_op = Stat string | CreateReadStream string

record world =
  res :: response
  log_lines :: "(string \<times> string \<times> string \<times> nat \<times> nat) list"
  fs_ops :: "fs_op list"

definition on_res :: "(response \<Rightarrow> response) \<Rightarrow> world \<Rightarrow> world" where
  "on_res f w = w\<lparr>res := f (res w)\<rparr>"

definition stat :: "env \<Rightarrow> string \<Rightarrow> world \<Rightarrow> (string + stats) \<times> world" where
  "stat env p w = (fs_stat env p, w\<lparr>fs_ops := fs_ops w @ [Stat p]\<rparr>)"

definition createReadStream :: "env \<Rightarrow> string \<Rightarrow> world \<Rightarrow> (string \<times> string option) \<times> world" where
  "createReadStream env p w = (fs_read env p, w\<lparr>fs_ops := fs_ops w @ [CreateReadStream p]\<rparr>)"

section \<open>The server\<close>

definition logRequest :: "request \<Rightarrow> nat \<Rightarrow> nat \<Rightarrow> world \<Rightarrow> world" where
  "logRequest req statusCode bytesSent w =
     w\<lparr>log_lines := log_lines w @ [(remoteAddress req, req_method req, url req, statusCode, bytesSent)]\<rparr>"

definition sendError :: "nat \<Rightarrow> string \<Rightarrow> request \<Rightarrow> world \<Rightarrow> world" where
  "sendError statusCode message req w =
     (let body = digits statusCode @ '' '' @ message @ [CHR 0x0A];
          w1 = on_res (writeHead statusCode
                 [(''Content-Type'', Str ''text/plain''),
                  (''Content-Length'', Num (length body))]) w;
          w2 = on_res (res_end body) w1
      in logRequest req statusCode (length body) w2)"

definition isPathSafe :: "env \<Rightarrow> string \<Rightarrow> bool" where
  "isPathSafe env requestedPath =
     (let normalized = path_normalize requestedPath;
          resolved = path_resolve (cwd env) normalized;
          webroot = path_resolve (cwd env) (WEBROOT env)
      in startsWith resolved webroot)"

definition getMimeType :: "string \<Rightarrow> string" where
  "getMimeType filePath =
     (let ext = toLowerCase (path_extname filePath)
      in case map_of MIME_TYPES ext of
           Some t \<Rightarrow> t
         | None \<Rightarrow> ''application/octet-stream'')"

text \<open>
  \<^verbatim>\<open>serveFile\<close>.  The read stream is piped into the response: its bytes reach the body;
  when it ends, the response is ended and the request logged with the bytes counted; when
  it fails, the failure is logged as status 500 with 0 bytes and the pipeline destroys the
  response, whose status line and headers are those already given to \<^verbatim>\<open>writeHead\<close>.
\<close>

definition serveFile :: "env \<Rightarrow> string \<Rightarrow> stats \<Rightarrow> request \<Rightarrow> world \<Rightarrow> world" where
  "serveFile env filePath st req w =
     (let mimeType = getMimeType filePath;
          fileSize = st_size st;
          lastModified = toUTCString (mtime st);
          ifModifiedSince = if_modified_since req
      in if (case ifModifiedSince of
               None \<Rightarrow> False
             | Some v \<Rightarrow> v \<noteq> [] \<and> date_le (Date_parse env lastModified) (Date_parse env v))
         then
           logRequest req 304 0
             (on_res (res_end [])
               (on_res (writeHead 304
                  [(''Last-Modified'', Str lastModified),
                   (''Cache-Control'', Str ''public, max-age=60'')]) w))
         else
           let w1 = on_res (writeHead 200
                      [(''Content-Type'', Str mimeType),
                       (''Content-Length'', Num fileSize),
                       (''Last-Modified'', Str lastModified),
                       (''Cache-Control'', Str ''public, max-age=60'')]) w
           in if req_method req = ''HEAD'' then logRequest req 200 0 (on_res (res_end []) w1)
              else
                (case createReadStream env filePath w1 of
                   ((chunks, None), w2) \<Rightarrow>
                     logRequest req 200 (length chunks) (on_res (res_end []) (on_res (res_write chunks) w2))
                 | ((chunks, Some err), w2) \<Rightarrow>
                     on_res res_destroy (logRequest req 500 0 (on_res (res_write chunks) w2))))"

definition host_text :: "request \<Rightarrow> string" where
  "host_text req = (case host req of None \<Rightarrow> ''undefined'' | Some h \<Rightarrow> h)"

definition handleRequest :: "env \<Rightarrow> request \<Rightarrow> world \<Rightarrow> world" where
  "handleRequest env req w =
     (if req_method req \<noteq> ''GET'' \<and> req_method req \<noteq> ''HEAD'' then
        logRequest req 405 24
          (on_res (res_end (''405 Method Not Allowed'' @ [CHR 0x0A]))
            (on_res (writeHead 405
               [(''Allow'', Str ''GET, HEAD''),
                (''Content-Type'', Str ''text/plain'')]) w))
      else
        let rawUrl = (if url req \<noteq> [] then url req else [])
        in if str_includes rawUrl ''..'' \<or> str_includes rawUrl ''%2e%2e'' \<or> str_includes rawUrl ''%2E%2E''
           then sendError 403 ''Forbidden'' req w
           else
             (case URL_pathname env (url req) (''http://'' @ host_text req) of
                None \<Rightarrow> sendError 400 ''Bad Request'' req w
              | Some decoded \<Rightarrow>
                  let pathname = path_normalize decoded;
                      filePath = path_join (WEBROOT env) pathname
                  in if \<not> isPathSafe env filePath then sendError 403 ''Forbidden'' req w
                     else
                       (case stat env filePath w of
                          (Inl code, w1) \<Rightarrow>
                            if code = ''ENOENT'' then sendError 404 ''Not Found'' req w1
                            else sendError 500 ''Internal Server Error'' req w1
                        | (Inr st, w1) \<Rightarrow>
                            if isDirectory st then
                              (let indexPath = path_join filePath ''index.html''
                               in case stat env indexPath w1 of
                                    (Inl err, w2) \<Rightarrow> sendError 403 ''Forbidden'' req w2
                                  | (Inr indexStats, w2) \<Rightarrow> serveFile env indexPath indexStats req w2)
                            else serveFile env filePath st req w1)))"

text \<open>\<^verbatim>\<open>http.createServer(handleRequest)\<close>: every request gets a fresh response object.\<close>

definition server :: "env \<Rightarrow> request \<Rightarrow> world" where
  "server env req = handleRequest env req \<lparr>res = ServerResponse req, log_lines = [], fs_ops = []\<rparr>"

section \<open>Names for the steps of the handler\<close>

text \<open>
  The properties below speak about intermediate values of \<^verbatim>\<open>handleRequest\<close> and
  \<^verbatim>\<open>serveFile\<close>.  Each gets a name here; \<open>handleRequest_allowed\<close> and the \<open>serveFile\<close>
  lemmas below show that the handler computes exactly these.
\<close>

text \<open>The raw-target test of the handler (source lines 98 to 101).\<close>

definition prescreen :: "string \<Rightarrow> bool" where
  "prescreen rawUrl =
     (str_includes rawUrl ''..'' \<or> str_includes rawUrl ''%2e%2e'' \<or> str_includes rawUrl ''%2E%2E'')"

text \<open>The base handed to the URL constructor.\<close>

definition base_of :: "request \<Rightarrow> string" where
  "base_of req = ''http://'' @ host_text req"

text \<open>The candidate path: the normalized pathname joined onto the root (lines 114 to 117).\<close>

definition candidate :: "env \<Rightarrow> string \<Rightarrow> string" where
  "candidate env decoded = path_join (WEBROOT env) (path_normalize decoded)"

text \<open>The path of the index file of a directory (line 135).\<close>

definition indexPath :: "string \<Rightarrow> string" where
  "indexPath filePath = path_join filePath ''index.html''"

text \<open>The world after one more \<^verbatim>\<open>fs.stat\<close> call.\<close>

definition stat_world :: "string \<Rightarrow> world \<Rightarrow> world" where
  "stat_world p w = w\<lparr>fs_ops := fs_ops w @ [Stat p]\<rparr>"

text \<open>The world in which the handler starts.\<close>

definition fresh :: "request \<Rightarrow> world" where
  "fresh req = \<lparr>res = ServerResponse req, log_lines = [], fs_ops = []\<rparr>"

text \<open>The test of the conditional request (lines 163 to 168): the header is present and
  not empty, and the parsed \<^verbatim>\<open>Last-Modified\<close> text is at most the parsed header.\<close>

definition notModified :: "env \<Rightarrow> stats \<Rightarrow> request \<Rightarrow> bool" where
  "notModified env st req =
     (case if_modified_since req of
        None \<Rightarrow> False
      | Some v \<Rightarrow> v \<noteq> [] \<and> date_le (Date_parse env (toUTCString (mtime st))) (Date_parse env v))"

text \<open>The headers of the two answers of \<^verbatim>\<open>serveFile\<close>.\<close>

definition headers304 :: "stats \<Rightarrow> (string \<times> header_value) list" where
  "headers304 st =
     [(''Last-Modified'', Str (toUTCString (mtime st))),
      (''Cache-Control'', Str ''public, max-age=60'')]"

definition headers200 :: "string \<Rightarrow> stats \<Rightarrow> (string \<times> header_value) list" where
  "headers200 filePath st =
     [(''Content-Type'', Str (getMimeType filePath)),
      (''Content-Length'', Num (st_size st)),
      (''Last-Modified'', Str (toUTCString (mtime st))),
      (''Cache-Control'', Str ''public, max-age=60'')]"

text \<open>
  The router hands the path \<open>filePath\<close> with the metadata \<open>st\<close> to \<^verbatim>\<open>serveFile\<close>: the
  request passes the method gate and the pre-screen, the URL constructor delivers a
  pathname, the candidate path passes the containment check, and \<^verbatim>\<open>stat\<close> either finds
  something that is not a directory (then \<open>filePath\<close> is the candidate), or finds a
  directory and then succeeds on its index path (then \<open>filePath\<close> is the index path).
\<close>

definition resolves_to :: "env \<Rightarrow> request \<Rightarrow> string \<Rightarrow> stats \<Rightarrow> bool" where
  "resolves_to env req filePath st =
     ((req_method req = ''GET'' \<or> req_method req = ''HEAD'') \<and> \<not> prescreen (url req) \<and>
      (case URL_pathname env (url req) (base_of req) of
         None \<Rightarrow> False
       | Some decoded \<Rightarrow>
           isPathSafe env (candidate env decoded) \<and>
           (case fs_stat env (candidate env decoded) of
              Inl code \<Rightarrow> False
            | Inr s \<Rightarrow>
                if isDirectory s
                then filePath = indexPath (candidate env decoded)
                     \<and> fs_stat env (indexPath (candidate env decoded)) = Inr st
                else filePath = candidate env decoded \<and> st = s)))"

text \<open>A modification time cut to whole seconds, in milliseconds.\<close>

definition whole_seconds :: "int \<Rightarrow> int" where
  "whole_seconds t = t div 1000 * 1000"

text \<open>The path a file system call is made on.\<close>

fun op_path :: "fs_op \<Rightarrow> string" where
  "op_path (Stat p) = p"
| "op_path (CreateReadStream p) = p"

section \<open>Normal forms of paths\<close>

text \<open>
  A clean segment is one that \<^verbatim>\<open>normalizeString\<close> keeps as it is: not empty, not a dot
  segment, and without a slash.  An absolute normalized path is a slash followed by clean
  segments joined by slashes.
\<close>

definition clean :: "string \<Rightarrow> bool" where
  "clean seg = (seg \<noteq> [] \<and> seg \<noteq> ''.'' \<and> seg \<noteq> ''..'' \<and> CHR ''/'' \<notin> set seg)"

text \<open>The segments \<^verbatim>\<open>normalizeString\<close> keeps, starting from the kept segments \<open>acc\<close>.\<close>

definition kept :: "string list \<Rightarrow> string \<Rightarrow> string list" where
  "kept acc s = foldl (normalize_step False) acc (split_on is_slash s)"

definition abs_path :: "string list \<Rightarrow> string" where
  "abs_path L = CHR ''/'' # join_with ''/'' L"

text \<open>A normalized absolute path, with or without the slash at its end.\<close>

definition normal_form :: "string list \<Rightarrow> string \<Rightarrow> bool" where
  "normal_form L p = ((\<forall>seg \<in> set L. clean seg) \<and> (p = abs_path L \<or> (L \<noteq> [] \<and> p = abs_path L @ ''/'')))"

text \<open>
  The path \<open>p\<close> names the directory \<open>root\<close> or something below it: both are absolute,
  neither has a dot segment, and the segments of \<open>root\<close> are the first segments of \<open>p\<close>.
  The comparison is by whole segments: \<^verbatim>\<open>/app/public-evil\<close> is not within \<^verbatim>\<open>/app/public\<close>.
\<close>

definition path_segments :: "string \<Rightarrow> string list" where
  "path_segments p = filter (\<lambda>s. s \<noteq> []) (split_on is_slash p)"

definition within :: "string \<Rightarrow> string \<Rightarrow> bool" where
  "within root p =
     (prefix ''/'' root \<and> prefix ''/'' p
      \<and> list_all (\<lambda>s. s \<noteq> ''.'' \<and> s \<noteq> ''..'') (path_segments root)
      \<and> list_all (\<lambda>s. s \<noteq> ''.'' \<and> s \<noteq> ''..'') (path_segments p)
      \<and> prefix (path_segments root) (path_segments p))"

section \<open>A concrete deployment\<close>

text \<open>
  The deployment of the repository's container: working directory \<^verbatim>\<open>/app\<close>, \<^verbatim>\<open>WEBROOT=./public\<close>.
  The root holds \<^verbatim>\<open>index.html\<close> (20 bytes, last modified 2024-02-29 12:00:00.123 UTC),
  \<^verbatim>\<open>data.bin\<close> (3 bytes, last modified at the epoch), \<^verbatim>\<open>old.txt\<close> (3 bytes, last
  modified at the first instant of the year 0000), a
  directory \<^verbatim>\<open>empty\<close> without an index file, a directory \<^verbatim>\<open>docs\<close> whose entry
  \<^verbatim>\<open>index.html\<close> is itself a directory, and a directory \<^verbatim>\<open>private\<close> that may not be
  searched.  Clients send \<^verbatim>\<open>Host: localhost:8080\<close>, as the repository's demonstration script
  does.  The environment answers for these inputs as Node does; the bases, dates and
  targets it does not list are treated as rejected, and nothing below depends on them.
  \<^verbatim>\<open>Date.parse\<close> reads a year from 0 to 49 that is not in ISO format as the year 2000 to
  2049: the text \<^verbatim>\<open>Sat, 01 Jan 0000 00:00:00 GMT\<close> is read as the first instant of the
  year 2000.
\<close>

definition demo_dir :: stats where
  "demo_dir = \<lparr>isDirectory = True, st_size = 4096, mtime = 1709208000123\<rparr>"

definition demo_stat :: "(string \<times> (string + stats)) list" where
  "demo_stat =
     [(''/app/public'', Inr demo_dir),
      (''/app/public/'', Inr demo_dir),
      (''/app/public/index.html'', Inr \<lparr>isDirectory = False, st_size = 20, mtime = 1709208000123\<rparr>),
      (''/app/public/index.html/'', Inl ''ENOTDIR''),
      (''/app/public/data.bin'', Inr \<lparr>isDirectory = False, st_size = 3, mtime = 0\<rparr>),
      (''/app/public/old.txt'', Inr \<lparr>isDirectory = False, st_size = 3, mtime = - 62167219200000\<rparr>),
      (''/app/public/empty'', Inr demo_dir),
      (''/app/public/empty/'', Inr demo_dir),
      (''/app/public/docs'', Inr demo_dir),
      (''/app/public/docs/'', Inr demo_dir),
      (''/app/public/docs/index.html'', Inr demo_dir),
      (''/app/public/private/key.pem'', Inl ''EACCES'')]"

definition demo_read :: "(string \<times> (string \<times> string option)) list" where
  "demo_read =
     [(''/app/public/index.html'', (''Hello, static world!'', None)),
      (''/app/public/data.bin'', (''abc'', None)),
      (''/app/public/old.txt'', (''old'', None)),
      (''/app/public/docs/index.html'', ([], Some ''EISDIR''))]"

definition demo_dates :: "(string \<times> int) list" where
  "demo_dates =
     [(''Sat, 01 Jan 0000 00:00:00 GMT'', 946684800000),
      (''Thu, 01 Jan 1970 00:00:00 GMT'', 0),
      (''Thu, 29 Feb 2024 11:59:59 GMT'', 1709207999000),
      (''Thu, 29 Feb 2024 12:00:00 GMT'', 1709208000000),
      (''Thu, 29 Feb 2024 12:00:01 GMT'', 1709208001000)]"

definition demo_env :: env where
  "demo_env =
     \<lparr>WEBROOT_var = Some ''./public'',
      cwd_rest = ''app'',
      URL_base_ok = (\<lambda>b. b = ''http://localhost:8080''),
      URL_other = (\<lambda>input b. None),
      Date_parse = map_of demo_dates,
      fs_stat = (\<lambda>p. case map_of demo_stat p of Some r \<Rightarrow> r | None \<Rightarrow> Inl ''ENOENT''),
      fs_read = (\<lambda>p. case map_of demo_read p of Some r \<Rightarrow> r | None \<Rightarrow> ([], Some ''ENOENT''))\<rparr>"

definition request_for :: "string \<Rightarrow> string \<Rightarrow> request" where
  "request_for m u =
     \<lparr>req_method = m, url = u, host = Some ''localhost:8080'', if_modified_since = None,
      remoteAddress = ''127.0.0.1''\<rparr>"

section \<open>Basic facts\<close>

lemma str_includes_sublist: "str_includes s sub = sublist sub s"
  by (induction s) (simp_all add: sublist_Cons_right)

lemma str_includes_iff: "str_includes s sub \<longleftrightarrow> (\<exists>ps ss. s = ps @ sub @ ss)"
  by (simp add: str_includes_sublist sublist_def)

lemma str_includes_append_right: "str_includes q sub \<Longrightarrow> str_includes (p @ q) sub"
  by (auto simp: str_includes_sublist sublist_append)

lemma prescreen_append_right: "prescreen q \<Longrightarrow> prescreen (p @ q)"
  unfolding prescreen_def using str_includes_append_right by blast

lemmas effect_defs =
  on_res_def writeHead_def res_write_def res_end_def res_destroy_def logRequest_def

lemma stat_world_simps [simp]:
  "res (stat_world p w) = res w"
  "fs_ops (stat_world p w) = fs_ops w @ [Stat p]"
  "log_lines (stat_world p w) = log_lines w"
  by (simp_all add: stat_world_def)

lemma fresh_simps [simp]:
  "fs_ops (fresh req) = []"
  "log_lines (fresh req) = []"
  "body (res (fresh req)) = []"
  "hasBody (res (fresh req)) = (req_method req \<noteq> ''HEAD'')"
  by (simp_all add: fresh_def ServerResponse_def)

lemma server_fresh: "server env req = handleRequest env req (fresh req)"
  by (simp only: server_def fresh_def)

subsection \<open>\<^verbatim>\<open>sendError\<close>\<close>

lemma sendError_status [simp]: "status (res (sendError c m req w)) = Some c"
  by (simp add: sendError_def effect_defs Let_def del: digits.simps)


lemma sendError_fs_ops [simp]: "fs_ops (sendError c m req w) = fs_ops w"
  by (simp add: sendError_def effect_defs Let_def del: digits.simps)

lemma sendError_body:
  "body (res (sendError c m req w)) =
     (if hasBody (res w) \<and> \<not> (c = 204 \<or> c = 304 \<or> (100 \<le> c \<and> c \<le> 199))
      then body (res w) @ digits c @ '' '' @ m @ [CHR 0x0A]
      else body (res w))"
  by (simp add: sendError_def effect_defs Let_def del: digits.simps)


subsection \<open>\<^verbatim>\<open>serveFile\<close>, branch by branch\<close>

lemma serveFile_not_modified:
  assumes "notModified env st req"
  shows "serveFile env fp st req w =
           logRequest req 304 0 (on_res (res_end []) (on_res (writeHead 304 (headers304 st)) w))"
proof -
  have c: "(case if_modified_since req of
              None \<Rightarrow> False
            | Some v \<Rightarrow> v \<noteq> [] \<and> date_le (Date_parse env (toUTCString (mtime st))) (Date_parse env v))"
    using assms unfolding notModified_def .
  show ?thesis
    unfolding serveFile_def Let_def if_P[OF c] headers304_def by (rule refl)
qed

lemma serveFile_modified:
  assumes "\<not> notModified env st req"
  shows "serveFile env fp st req w =
           (if req_method req = ''HEAD''
            then logRequest req 200 0 (on_res (res_end []) (on_res (writeHead 200 (headers200 fp st)) w))
            else
              (case fs_read env fp of
                 (chunks, None) \<Rightarrow>
                   logRequest req 200 (length chunks)
                     (on_res (res_end []) (on_res (res_write chunks)
                        ((on_res (writeHead 200 (headers200 fp st)) w)
                           \<lparr>fs_ops := fs_ops (on_res (writeHead 200 (headers200 fp st)) w) @ [CreateReadStream fp]\<rparr>)))
               | (chunks, Some err) \<Rightarrow>
                   on_res res_destroy (logRequest req 500 0 (on_res (res_write chunks)
                        ((on_res (writeHead 200 (headers200 fp st)) w)
                           \<lparr>fs_ops := fs_ops (on_res (writeHead 200 (headers200 fp st)) w) @ [CreateReadStream fp]\<rparr>)))))"
proof -
  have c: "\<not> (case if_modified_since req of
              None \<Rightarrow> False
            | Some v \<Rightarrow> v \<noteq> [] \<and> date_le (Date_parse env (toUTCString (mtime st))) (Date_parse env v))"
    using assms unfolding notModified_def .
  show ?thesis
    unfolding serveFile_def Let_def if_not_P[OF c] headers200_def createReadStream_def
    by (cases "fs_read env fp") (simp only: prod.case)
qed

lemma serveFile_status:
  "status (res (serveFile env fp st req w)) = Some (if notModified env st req then 304 else 200)"
proof (cases "notModified env st req")
  case True
  then show ?thesis by (simp add: serveFile_not_modified effect_defs)
next
  case False
  then show ?thesis
    by (simp add: serveFile_modified effect_defs split: prod.split option.split)
qed

lemma serveFile_headers:
  "headers (res (serveFile env fp st req w)) =
     (if notModified env st req then headers304 st else headers200 fp st)"
proof (cases "notModified env st req")
  case True
  then show ?thesis by (simp add: serveFile_not_modified effect_defs)
next
  case False
  then show ?thesis
    by (simp add: serveFile_modified effect_defs split: prod.split option.split)
qed

lemma serveFile_body_closed:
  assumes "\<not> hasBody (res w)"
  shows "body (res (serveFile env fp st req w)) = body (res w)"
proof (cases "notModified env st req")
  case True
  then show ?thesis using assms by (simp add: serveFile_not_modified effect_defs)
next
  case False
  then show ?thesis using assms
    by (simp add: serveFile_modified effect_defs split: prod.split option.split)
qed

lemma serveFile_body_304:
  assumes "notModified env st req"
  shows "body (res (serveFile env fp st req w)) = body (res w)"
  using assms by (simp add: serveFile_not_modified effect_defs)

lemma serveFile_body_get:
  assumes "\<not> notModified env st req" and "req_method req \<noteq> ''HEAD''" and "hasBody (res w)"
  shows "body (res (serveFile env fp st req w)) = body (res w) @ fst (fs_read env fp)"
  using assms by (simp add: serveFile_modified effect_defs split: prod.split option.split)

lemma serveFile_fs_ops:
  "fs_ops (serveFile env fp st req w) =
     (if notModified env st req \<or> req_method req = ''HEAD'' then fs_ops w
      else fs_ops w @ [CreateReadStream fp])"
proof (cases "notModified env st req")
  case True
  then show ?thesis by (simp add: serveFile_not_modified effect_defs)
next
  case False
  then show ?thesis
    by (simp add: serveFile_modified effect_defs split: prod.split option.split)
qed

lemma serveFile_destroyed:
  "destroyed (res (serveFile env fp st req w)) =
     (if \<not> notModified env st req \<and> req_method req \<noteq> ''HEAD'' \<and> snd (fs_read env fp) \<noteq> None
      then True else destroyed (res w))"
proof (cases "notModified env st req")
  case True
  then show ?thesis by (simp add: serveFile_not_modified effect_defs)
next
  case False
  then show ?thesis
    by (simp add: serveFile_modified effect_defs split: prod.split option.split)
qed

lemma notModified_req_method [simp]: "notModified env st (req\<lparr>req_method := m\<rparr>) = notModified env st req"
  by (simp add: notModified_def)

subsection \<open>\<^verbatim>\<open>handleRequest\<close>, gate by gate\<close>

lemma handleRequest_refused:
  assumes "req_method req \<noteq> ''GET''" and "req_method req \<noteq> ''HEAD''"
  shows "handleRequest env req w =
           logRequest req 405 24
             (on_res (res_end (''405 Method Not Allowed'' @ [CHR 0x0A]))
               (on_res (writeHead 405
                  [(''Allow'', Str ''GET, HEAD''), (''Content-Type'', Str ''text/plain'')]) w))"
proof -
  have c: "req_method req \<noteq> ''GET'' \<and> req_method req \<noteq> ''HEAD''"
    using assms by blast
  show ?thesis
    unfolding handleRequest_def if_P[OF c] by (rule refl)
qed

lemma handleRequest_allowed:
  assumes "req_method req = ''GET'' \<or> req_method req = ''HEAD''"
  shows "handleRequest env req w =
     (if prescreen (url req) then sendError 403 ''Forbidden'' req w
      else
        (case URL_pathname env (url req) (base_of req) of
           None \<Rightarrow> sendError 400 ''Bad Request'' req w
         | Some decoded \<Rightarrow>
             if \<not> isPathSafe env (candidate env decoded) then sendError 403 ''Forbidden'' req w
             else
               (case fs_stat env (candidate env decoded) of
                  Inl code \<Rightarrow>
                    if code = ''ENOENT'' then sendError 404 ''Not Found'' req (stat_world (candidate env decoded) w)
                    else sendError 500 ''Internal Server Error'' req (stat_world (candidate env decoded) w)
                | Inr st \<Rightarrow>
                    if isDirectory st then
                      (case fs_stat env (indexPath (candidate env decoded)) of
                         Inl err \<Rightarrow> sendError 403 ''Forbidden'' req
                            (stat_world (indexPath (candidate env decoded)) (stat_world (candidate env decoded) w))
                       | Inr indexStats \<Rightarrow>
                           serveFile env (indexPath (candidate env decoded)) indexStats req
                            (stat_world (indexPath (candidate env decoded)) (stat_world (candidate env decoded) w)))
                    else serveFile env (candidate env decoded) st req (stat_world (candidate env decoded) w))))"
proof -
  have m: "\<not> (req_method req \<noteq> ''GET'' \<and> req_method req \<noteq> ''HEAD'')"
    using assms by blast
  have u: "(if url req \<noteq> [] then url req else []) = url req"
    by simp
  show ?thesis
    unfolding handleRequest_def if_not_P[OF m] stat_def Let_def candidate_def indexPath_def
      prescreen_def stat_world_def base_of_def u
    by (simp only: prod.case)
qed

section \<open>The method gate\<close>

text \<open>
  Claim C5.  A request whose method is neither \<^verbatim>\<open>GET\<close> nor \<^verbatim>\<open>HEAD\<close> is answered 405 with
  the header \<^verbatim>\<open>Allow: GET, HEAD\<close>.  The answer is produced before any path processing:
  no file system call is made, and the response is the same whatever the target, the
  \<^verbatim>\<open>Host\<close> header, the conditional header and the environment (URL parser, file system,
  root) are.
\<close>

theorem method_not_allowed:
  assumes "req_method req \<noteq> ''GET''" and "req_method req \<noteq> ''HEAD''"
  shows "status (res (server env req)) = Some 405
       \<and> headers (res (server env req)) =
           [(''Allow'', Str ''GET, HEAD''), (''Content-Type'', Str ''text/plain'')]
       \<and> fs_ops (server env req) = []
       \<and> res (server env req) =
           res (server env' (req\<lparr>url := u, host := h, if_modified_since := i\<rparr>))"
proof -
  have a: "req_method (req\<lparr>url := u, host := h, if_modified_since := i\<rparr>) \<noteq> ''GET''"
    and b: "req_method (req\<lparr>url := u, host := h, if_modified_since := i\<rparr>) \<noteq> ''HEAD''"
    using assms by simp_all
  show ?thesis
    unfolding server_fresh handleRequest_refused[OF assms] handleRequest_refused[OF a b]
    by (simp add: effect_defs fresh_def ServerResponse_def)
qed

theorem method_not_allowed_witness:
  "status (res (server demo_env (request_for ''POST'' ''/''))) = Some 405
   \<and> headers (res (server demo_env (request_for ''POST'' ''/''))) =
       [(''Allow'', Str ''GET, HEAD''), (''Content-Type'', Str ''text/plain'')]
   \<and> fs_ops (server demo_env (request_for ''POST'' ''/'')) = []
   \<and> res (server demo_env (request_for ''POST'' ''/'')) =
       res (server demo_env (request_for ''POST'' ''/../missing.txt''))"
proof -
  have a: "req_method (request_for ''POST'' ''/'') \<noteq> ''GET''"
    and b: "req_method (request_for ''POST'' ''/'') \<noteq> ''HEAD''"
    by (simp_all add: request_for_def)
  have r: "(request_for ''POST'' ''/'')\<lparr>url := ''/../missing.txt'', host := Some ''localhost:8080'',
             if_modified_since := None\<rparr> = request_for ''POST'' ''/../missing.txt''"
    by (simp add: request_for_def)
  show ?thesis
    using method_not_allowed[OF a b, where env = demo_env and env' = demo_env
        and u = "''/../missing.txt''" and h = "Some ''localhost:8080''" and i = None]
    unfolding r .
qed

section \<open>\<^verbatim>\<open>HEAD\<close> requests\<close>

lemma base_of_req_method [simp]: "base_of (req\<lparr>req_method := m\<rparr>) = base_of req"
  by (simp add: base_of_def host_text_def)







section \<open>The deployment, run on sample requests\<close>

lemma run_index_html:
  "server demo_env (request_for ''GET'' ''/index.html'') =
     \<lparr>res = \<lparr>hasBody = True, status = Some 200,
              headers = [(''Content-Type'', Str ''text/html''),
                         (''Content-Length'', Num 20),
                         (''Last-Modified'', Str ''Thu, 29 Feb 2024 12:00:00 GMT''),
                         (''Cache-Control'', Str ''public, max-age=60'')],
              body = ''Hello, static world!'', finished = True, destroyed = False\<rparr>,
      log_lines = [(''127.0.0.1'', ''GET'', ''/index.html'', 200, 20)],
      fs_ops = [Stat ''/app/public/index.html'', CreateReadStream ''/app/public/index.html'']\<rparr>"
  by code_simp

lemma run_mixed_case:
  "server demo_env (request_for ''GET'' ''/%2e%2E/index.html'') =
     \<lparr>res = \<lparr>hasBody = True, status = Some 200,
              headers = [(''Content-Type'', Str ''text/html''),
                         (''Content-Length'', Num 20),
                         (''Last-Modified'', Str ''Thu, 29 Feb 2024 12:00:00 GMT''),
                         (''Cache-Control'', Str ''public, max-age=60'')],
              body = ''Hello, static world!'', finished = True, destroyed = False\<rparr>,
      log_lines = [(''127.0.0.1'', ''GET'', ''/%2e%2E/index.html'', 200, 20)],
      fs_ops = [Stat ''/app/public/index.html'', CreateReadStream ''/app/public/index.html'']\<rparr>"
  by code_simp

lemma run_malformed_escape:
  "server demo_env (request_for ''GET'' ''/%zz'') =
     \<lparr>res = \<lparr>hasBody = True, status = Some 404,
              headers = [(''Content-Type'', Str ''text/plain''), (''Content-Length'', Num 14)],
              body = ''404 Not Found'' @ [CHR 0x0A], finished = True, destroyed = False\<rparr>,
      log_lines = [(''127.0.0.1'', ''GET'', ''/%zz'', 404, 14)],
      fs_ops = [Stat ''/app/public/%zz'']\<rparr>"
  by code_simp

section \<open>The raw-target pre-screen\<close>

lemma prescreen_forbidden:
  assumes "req_method req = ''GET'' \<or> req_method req = ''HEAD''" and "prescreen (url req)"
  shows "server env req = sendError 403 ''Forbidden'' req (fresh req)"
  unfolding server_fresh handleRequest_allowed[OF assms(1)] using assms(2) by simp

lemma forbidden_body: "digits 403 @ '' '' @ ''Forbidden'' @ [CHR 0x0A] = ''403 Forbidden'' @ [CHR 0x0A]"
  by simp

text \<open>
  Claim C9.  The pre-screen reads the whole raw target, query string included: a \<^verbatim>\<open>GET\<close>
  or \<^verbatim>\<open>HEAD\<close> request whose target has \<^verbatim>\<open>..\<close>, \<^verbatim>\<open>%2e%2e\<close> or \<^verbatim>\<open>%2E%2E\<close> only after
  the question mark is answered 403, without a file system call; the file the path part
  names is not served.
\<close>

theorem prescreen_covers_query:
  assumes "req_method req = ''GET'' \<or> req_method req = ''HEAD''"
    and "url req = p @ ''?'' @ q"
    and "str_includes q ''..'' \<or> str_includes q ''%2e%2e'' \<or> str_includes q ''%2E%2E''"
  shows "status (res (server env req)) = Some 403
       \<and> fs_ops (server env req) = []
       \<and> body (res (server env req)) =
           (if req_method req = ''HEAD'' then [] else ''403 Forbidden'' @ [CHR 0x0A])"
proof -
  have "prescreen q"
    using assms(3) by (simp only: prescreen_def)
  then have "prescreen (url req)"
    unfolding assms(2) by (intro prescreen_append_right)
  then have s: "server env req = sendError 403 ''Forbidden'' req (fresh req)"
    by (rule prescreen_forbidden[OF assms(1)])
  show ?thesis
    unfolding s by (simp add: sendError_body del: digits.simps) simp
qed

theorem prescreen_covers_query_witness:
  "status (res (server demo_env (request_for ''GET'' ''/index.html''))) = Some 200
   \<and> body (res (server demo_env (request_for ''GET'' ''/index.html''))) = ''Hello, static world!''
   \<and> status (res (server demo_env (request_for ''GET'' ''/index.html?x=..''))) = Some 403
   \<and> fs_ops (server demo_env (request_for ''GET'' ''/index.html?x=..'')) = []
   \<and> body (res (server demo_env (request_for ''GET'' ''/index.html?x=..''))) = ''403 Forbidden'' @ [CHR 0x0A]"
proof -
  have a: "req_method (request_for ''GET'' ''/index.html?x=..'') = ''GET''
           \<or> req_method (request_for ''GET'' ''/index.html?x=..'') = ''HEAD''"
    by (simp add: request_for_def)
  have b: "url (request_for ''GET'' ''/index.html?x=..'') = ''/index.html'' @ ''?'' @ ''x=..''"
    by (simp add: request_for_def)
  have c: "str_includes ''x=..'' ''..'' \<or> str_includes ''x=..'' ''%2e%2e'' \<or> str_includes ''x=..'' ''%2E%2E''"
    by simp
  have d: "status (res (server demo_env (request_for ''GET'' ''/index.html''))) = Some 200"
    by (simp add: run_index_html)
  have e: "body (res (server demo_env (request_for ''GET'' ''/index.html''))) = ''Hello, static world!''"
    by (simp add: run_index_html)
  have m: "req_method (request_for ''GET'' ''/index.html?x=..'') \<noteq> ''HEAD''"
    by (simp add: request_for_def)
  show ?thesis
    using prescreen_covers_query[OF a b c, of demo_env] d e m by simp
qed

text \<open>
  Claim C1, at the input where the code departs from it.  The pre-screen looks for the
  three spellings \<^verbatim>\<open>..\<close>, \<^verbatim>\<open>%2e%2e\<close> and \<^verbatim>\<open>%2E%2E\<close> only.  The target
  \<^verbatim>\<open>/%2e%2E/index.html\<close> holds a percent-encoded \<^verbatim>\<open>..\<close> in mixed case; it passes the
  pre-screen, the URL constructor removes the segment, and the file is served with status
  200 instead of the 403 the claim requires.
\<close>

theorem mixed_case_escape_is_served:
  "\<not> prescreen ''/%2e%2E/index.html''
   \<and> status (res (server demo_env (request_for ''GET'' ''/%2e%2E/index.html''))) = Some 200
   \<and> body (res (server demo_env (request_for ''GET'' ''/%2e%2E/index.html''))) = ''Hello, static world!''"
proof -
  have "\<not> prescreen ''/%2e%2E/index.html''"
    by (simp add: prescreen_def)
  then show ?thesis
    by (simp add: run_mixed_case)
qed

section \<open>Failures of the URL constructor\<close>

lemma constructor_failure_bad_request:
  assumes "req_method req = ''GET'' \<or> req_method req = ''HEAD''"
    and "\<not> prescreen (url req)"
    and "URL_pathname env (url req) (base_of req) = None"
  shows "server env req = sendError 400 ''Bad Request'' req (fresh req)"
  unfolding server_fresh handleRequest_allowed[OF assms(1)] using assms(2,3) by simp

lemma origin_form_never_fails:
  assumes "URL_base_ok env b" and "origin_form input"
  shows "URL_pathname env input b = Some (url_pathname_origin input)"
  using assms by (simp add: URL_pathname_def)

text \<open>An empty \<^verbatim>\<open>Host\<close> header gives the base \<^verbatim>\<open>http://\<close>, which the constructor rejects:
  this failure is answered 400.\<close>

lemma empty_host_bad_request:
  "status (res (server demo_env ((request_for ''GET'' ''/index.html'')\<lparr>host := Some []\<rparr>))) = Some 400"
proof -
  let ?req = "(request_for ''GET'' ''/index.html'')\<lparr>host := Some []\<rparr>"
  have m: "req_method ?req = ''GET'' \<or> req_method ?req = ''HEAD''"
    by (simp add: request_for_def)
  have p: "\<not> prescreen (url ?req)"
    by (simp add: request_for_def prescreen_def)
  have u: "URL_pathname demo_env (url ?req) (base_of ?req) = None"
    by (simp add: URL_pathname_def demo_env_def base_of_def host_text_def request_for_def)
  show ?thesis
    by (simp add: constructor_failure_bad_request[OF m p u])
qed

text \<open>
  Claim C8, at the input where the code departs from it.  The URL constructor does not
  percent-decode the path and accepts a malformed escape: for the target \<^verbatim>\<open>/%zz\<close> it
  returns the pathname \<^verbatim>\<open>/%zz\<close> unchanged, the handler looks for a file of that name, and
  the answer is 404, not 400.
\<close>

theorem malformed_escape_is_not_rejected:
  "URL_pathname demo_env ''/%zz'' (base_of (request_for ''GET'' ''/%zz'')) = Some ''/%zz''
   \<and> status (res (server demo_env (request_for ''GET'' ''/%zz''))) = Some 404
   \<and> fs_ops (server demo_env (request_for ''GET'' ''/%zz'')) = [Stat ''/app/public/%zz'']"
proof -
  have "URL_pathname demo_env ''/%zz'' (base_of (request_for ''GET'' ''/%zz'')) = Some ''/%zz''"
    by code_simp
  then show ?thesis
    by (simp add: run_malformed_escape)
qed

section \<open>Normalized paths\<close>

lemma split_on_sep_free:
  "\<forall>seg \<in> set (split_on sep s). \<forall>c \<in> set seg. \<not> sep c"
proof (induction s)
  case Nil
  then show ?case by simp
next
  case (Cons a s)
  show ?case
  proof (cases "split_on sep s")
    case Nil
    then show ?thesis by (simp split: if_splits)
  next
    case (Cons x xs)
    with Cons.IH have "\<forall>c \<in> set x. \<not> sep c" and "\<forall>seg \<in> set xs. \<forall>c \<in> set seg. \<not> sep c"
      by simp_all
    then show ?thesis
      using Cons by simp
  qed
qed

lemma split_on_nonempty [simp]: "split_on sep s \<noteq> []"
  by (induction s) (auto split: list.splits)

lemma split_on_append_sep:
  assumes "sep c"
  shows "split_on sep (a @ c # b) = split_on sep a @ split_on sep b"
  using assms
proof (induction a)
  case Nil
  then show ?case by simp
next
  case (Cons x a)
  then show ?case
    by (cases "split_on sep a") (auto split: list.splits)
qed

lemma split_on_sep_free_id:
  assumes "\<forall>c \<in> set s. \<not> sep c"
  shows "split_on sep s = [s]"
  using assms by (induction s) auto

lemma split_join:
  assumes "\<forall>seg \<in> set L. CHR ''/'' \<notin> set seg" and "L \<noteq> []"
  shows "split_on is_slash (join_with ''/'' L) = L"
  using assms
proof (induction L)
  case Nil
  then show ?case by simp
next
  case (Cons s L)
  have "\<forall>c \<in> set s. \<not> is_slash c"
    using Cons.prems(1) by (auto simp: is_slash_def)
  then have s: "split_on is_slash s = [s]"
    by (rule split_on_sep_free_id)
  show ?case
  proof (cases L)
    case Nil
    then show ?thesis using s by simp
  next
    case (Cons t ss)
    have "split_on is_slash (s @ CHR ''/'' # join_with ''/'' L) =
            split_on is_slash s @ split_on is_slash (join_with ''/'' L)"
      by (rule split_on_append_sep) (simp add: is_slash_def)
    moreover have "split_on is_slash (join_with ''/'' L) = L"
      using Cons.IH Cons.prems(1) Cons by simp
    ultimately show ?thesis
      using s Cons by simp
  qed
qed

lemma normalize_step_clean:
  assumes "clean seg"
  shows "normalize_step b acc seg = acc @ [seg]"
  using assms by (simp add: normalize_step_def clean_def)

lemma foldl_normalize_clean:
  assumes "\<forall>seg \<in> set L. clean seg"
  shows "foldl (normalize_step b) acc L = acc @ L"
  using assms by (induction L arbitrary: acc) (simp_all add: normalize_step_clean)

lemma normalize_step_keeps_clean:
  assumes "\<forall>s \<in> set acc. clean s" and "CHR ''/'' \<notin> set seg"
  shows "\<forall>s \<in> set (normalize_step False acc seg). clean s"
proof -
  have "set (butlast acc) \<subseteq> set acc"
    by (auto dest: in_set_butlastD)
  then show ?thesis
    using assms by (auto simp: normalize_step_def clean_def)
qed

lemma foldl_normalize_keeps_clean:
  assumes "\<forall>s \<in> set acc. clean s" and "\<forall>seg \<in> set segs. CHR ''/'' \<notin> set seg"
  shows "\<forall>s \<in> set (foldl (normalize_step False) acc segs). clean s"
  using assms
proof (induction segs arbitrary: acc)
  case Nil
  then show ?case by simp
next
  case (Cons seg segs)
  have "\<forall>s \<in> set (normalize_step False acc seg). clean s"
    using Cons.prems by (intro normalize_step_keeps_clean) simp_all
  then show ?case
    using Cons by simp
qed

lemma split_slash_free: "\<forall>seg \<in> set (split_on is_slash s). CHR ''/'' \<notin> set seg"
  using split_on_sep_free[of is_slash s] by (auto simp: is_slash_def)

lemma kept_clean:
  assumes "\<forall>s \<in> set acc. clean s"
  shows "\<forall>seg \<in> set (kept acc s). clean seg"
  unfolding kept_def using assms split_slash_free by (rule foldl_normalize_keeps_clean)

lemma kept_Nil [simp]: "kept acc [] = acc"
  by (simp add: kept_def normalize_step_def)

lemma kept_slash: "kept acc (a @ CHR ''/'' # b) = kept (kept acc a) b"
  by (simp add: kept_def split_on_append_sep is_slash_def)

lemma kept_leading_slash [simp]: "kept acc (CHR ''/'' # b) = kept acc b"
  using kept_slash[of acc "[]" b] by simp

lemma kept_join:
  assumes "\<forall>seg \<in> set L. clean seg"
  shows "kept acc (join_with ''/'' L) = acc @ L"
proof (cases "L = []")
  case True
  then show ?thesis by simp
next
  case False
  have "\<forall>seg \<in> set L. CHR ''/'' \<notin> set seg"
    using assms by (simp add: clean_def)
  then have "split_on is_slash (join_with ''/'' L) = L"
    using False by (rule split_join)
  then show ?thesis
    using assms by (simp add: kept_def foldl_normalize_clean)
qed

lemma normalizeString_kept: "normalizeString s False = join_with ''/'' (kept [] s)"
  by (simp add: normalizeString_def kept_def)

lemma join_with_snoc:
  "join_with sep (L @ [x]) = (if L = [] then x else join_with sep L @ sep @ x)"
  by (induction sep L rule: join_with.induct) auto

lemma join_clean_nonempty:
  assumes "\<forall>seg \<in> set L. clean seg" and "L \<noteq> []"
  shows "join_with ''/'' L \<noteq> []" and "last (join_with ''/'' L) \<noteq> CHR ''/''"
proof -
  obtain M x where L: "L = M @ [x]"
    using assms(2) by (metis rev_exhaust)
  then have x: "x \<noteq> []" and "CHR ''/'' \<notin> set x"
    using assms(1) by (simp_all add: clean_def)
  then have l: "last x \<noteq> CHR ''/''"
    using last_in_set by metis
  show "join_with ''/'' L \<noteq> []"
    using x by (simp add: L join_with_snoc)
  show "last (join_with ''/'' L) \<noteq> CHR ''/''"
    using x l by (simp add: L join_with_snoc)
qed

lemma kept_abs_path:
  assumes "\<forall>seg \<in> set L. clean seg"
  shows "kept acc (abs_path L) = acc @ L" and "kept acc (abs_path L @ ''/'') = acc @ L"
proof -
  show "kept acc (abs_path L) = acc @ L"
    using assms by (simp add: abs_path_def kept_join)
  have "kept acc (abs_path L @ ''/'') = kept (kept acc (abs_path L)) []"
    using kept_slash[of acc "abs_path L" "[]"] by simp
  then show "kept acc (abs_path L @ ''/'') = acc @ L"
    using \<open>kept acc (abs_path L) = acc @ L\<close> by simp
qed

lemma path_normalize_absolute:
  assumes "s \<noteq> []" and "hd s = CHR ''/''"
  shows "path_normalize s =
           (if kept [] s = [] then ''/''
            else if last s = CHR ''/'' then abs_path (kept [] s) @ ''/''
            else abs_path (kept [] s))"
proof -
  have c: "\<forall>seg \<in> set (kept [] s). clean seg"
    by (rule kept_clean) simp
  have e: "join_with ''/'' (kept [] s) = [] \<longleftrightarrow> kept [] s = []"
    using join_clean_nonempty(1)[OF c] by auto
  show ?thesis
    using assms e by (simp add: path_normalize_def normalizeString_kept Let_def abs_path_def)
qed

lemma path_resolve_absolute:
  assumes "p \<noteq> []" and "hd p = CHR ''/''"
  shows "path_resolve c p = abs_path (kept [] (p @ ''/''))"
  using assms by (simp add: path_resolve_def normalizeString_kept abs_path_def)

lemma path_resolve_cwd:
  assumes "c \<noteq> []" and "hd c = CHR ''/''"
  shows "\<exists>L. (\<forall>seg \<in> set L. clean seg) \<and> path_resolve c p = abs_path L"
proof -
  have k: "\<forall>seg \<in> set (kept [] s). clean seg" for s
    by (rule kept_clean) simp
  have "path_resolve c p = abs_path (kept [] (p @ ''/'')) \<or>
        path_resolve c p = abs_path (kept [] (c @ ''/'' @ p @ ''/'')) \<or>
        path_resolve c p = abs_path (kept [] (c @ ''/''))"
    using assms by (auto simp: path_resolve_def normalizeString_kept abs_path_def)
  then show ?thesis
    using k by metis
qed

lemma normal_form_resolve:
  assumes "normal_form L p"
  shows "path_resolve c p = abs_path L"
proof -
  have c: "\<forall>seg \<in> set L. clean seg"
    using assms by (simp add: normal_form_def)
  have p: "p \<noteq> []" "hd p = CHR ''/''"
    using assms by (auto simp: normal_form_def abs_path_def)
  have "kept [] (p @ ''/'') = kept (kept [] p) []"
    using kept_slash[of "[]" p "[]"] by simp
  also have "kept [] p = L"
    using assms kept_abs_path[OF c, of "[]"] by (auto simp: normal_form_def)
  finally show ?thesis
    by (simp add: path_resolve_absolute[OF p])
qed

lemma path_normalize_root: "path_normalize ''/'' = ''/''"
  by code_simp

lemma normal_form_normalize:
  assumes "normal_form L p"
  shows "path_normalize p = p"
proof -
  have c: "\<forall>seg \<in> set L. clean seg"
    using assms by (simp add: normal_form_def)
  have p: "p \<noteq> []" "hd p = CHR ''/''"
    using assms by (auto simp: normal_form_def abs_path_def)
  have k: "kept [] p = L"
    using assms kept_abs_path[OF c, of "[]"] by (auto simp: normal_form_def)
  show ?thesis
  proof (cases "L = []")
    case True
    then have "p = ''/''"
      using assms by (simp add: normal_form_def abs_path_def)
    then show ?thesis
      by (simp add: path_normalize_root)
  next
    case False
    have l: "last (abs_path L) \<noteq> CHR ''/''"
      using join_clean_nonempty[OF c False] by (simp add: abs_path_def)
    from assms consider (plain) "p = abs_path L" | (slash) "p = abs_path L @ ''/''"
      by (auto simp: normal_form_def)
    then show ?thesis
    proof cases
      case plain
      then have "last p \<noteq> CHR ''/''"
        using l by simp
      then show ?thesis
        unfolding path_normalize_absolute[OF p] using False k plain by simp
    next
      case slash
      then have "last p = CHR ''/''"
        by simp
      then show ?thesis
        unfolding path_normalize_absolute[OF p] using False k slash by simp
    qed
  qed
qed

lemma path_join_normal_form:
  assumes "\<forall>seg \<in> set L. clean seg" and "q \<noteq> []"
  shows "normal_form (kept L q) (path_join (abs_path L) q)"
proof -
  let ?s = "abs_path L @ ''/'' @ q"
  have j: "path_join (abs_path L) q = path_normalize ?s"
    using assms(2) by (simp add: path_join_def abs_path_def)
  have s: "?s \<noteq> []" "hd ?s = CHR ''/''"
    by (simp_all add: abs_path_def)
  have "kept [] ?s = kept (kept [] (abs_path L)) q"
    using kept_slash[of "[]" "abs_path L" q] by simp
  then have k: "kept [] ?s = kept L q"
    using kept_abs_path(1)[OF assms(1), of "[]"] by simp
  have c: "\<forall>seg \<in> set (kept L q). clean seg"
    using assms(1) by (rule kept_clean)
  show ?thesis
    unfolding j path_normalize_absolute[OF s] k normal_form_def
    using c by (auto simp: abs_path_def)
qed

lemma path_normalize_nonempty [simp]: "path_normalize p \<noteq> []"
  by (simp add: path_normalize_def Let_def)

lemma clean_index_html: "clean ''index.html''"
  by (simp add: clean_def)

lemma index_of_normal_form:
  assumes "normal_form L p"
  shows "indexPath p = abs_path (L @ [''index.html''])"
proof -
  let ?s = "p @ ''/'' @ ''index.html''"
  have c: "\<forall>seg \<in> set L. clean seg"
    using assms by (simp add: normal_form_def)
  have p: "p \<noteq> []"
    using assms by (auto simp: normal_form_def abs_path_def)
  have s: "?s \<noteq> []" "hd ?s = CHR ''/''"
    using assms by (auto simp: normal_form_def abs_path_def)
  have j: "indexPath p = path_normalize ?s"
    using p by (simp add: indexPath_def path_join_def)
  have "kept [] p = L"
    using assms kept_abs_path[OF c, of "[]"] by (auto simp: normal_form_def)
  moreover have "kept [] ?s = kept (kept [] p) ''index.html''"
    using kept_slash[of "[]" p "''index.html''"] by simp
  moreover have "kept L ''index.html'' = L @ [''index.html'']"
    using kept_join[of "[''index.html'']" L] clean_index_html by simp
  ultimately have k: "kept [] ?s = L @ [''index.html'']"
    by simp
  show ?thesis
    unfolding j path_normalize_absolute[OF s] k by simp
qed

lemma prefix_abs_path_snoc: "prefix (abs_path L) (abs_path (L @ [x]))"
  by (simp add: abs_path_def join_with_snoc)

lemma cwd_absolute: "cwd env \<noteq> []" "hd (cwd env) = CHR ''/''"
  by (simp_all add: cwd_def)

lemma WEBROOT_abs_path: "\<exists>R. (\<forall>seg \<in> set R. clean seg) \<and> WEBROOT env = abs_path R"
  unfolding WEBROOT_def using path_resolve_cwd[OF cwd_absolute] by blast

lemma join_with_append:
  "join_with sep (L @ M) =
     (if L = [] then join_with sep M
      else if M = [] then join_with sep L
      else join_with sep L @ sep @ join_with sep M)"
  by (induction sep L rule: join_with.induct) (auto simp: neq_Nil_conv)

lemma prefix_abs_path_append: "prefix (abs_path L) (abs_path (L @ M))"
  by (simp add: abs_path_def join_with_append)

lemma path_normalize_normal_form:
  assumes "decoded \<noteq> []" and "hd decoded = CHR ''/''"
  shows "normal_form (kept [] decoded) (path_normalize decoded)"
proof -
  have c: "\<forall>seg \<in> set (kept [] decoded). clean seg"
    by (rule kept_clean) simp
  show ?thesis
    unfolding path_normalize_absolute[OF assms] normal_form_def
    using c by (simp add: abs_path_def)
qed

lemma candidate_normal_form:
  assumes "\<forall>seg \<in> set R. clean seg" and "WEBROOT env = abs_path R"
    and "decoded \<noteq> []" and "hd decoded = CHR ''/''"
  shows "normal_form (R @ kept [] decoded) (candidate env decoded)"
proof -
  let ?K = "kept [] decoded"
  let ?P = "path_normalize decoded"
  have P: "normal_form ?K ?P"
    by (rule path_normalize_normal_form[OF assms(3,4)])
  then have K: "\<forall>seg \<in> set ?K. clean seg"
    by (simp add: normal_form_def)
  have k: "kept R ?P = R @ ?K"
    using P kept_abs_path[OF K, of R] by (auto simp: normal_form_def)
  show ?thesis
    unfolding candidate_def assms(2) using path_join_normal_form[OF assms(1), of ?P] by (simp add: k)
qed

lemma index_normal_form:
  assumes "normal_form L p"
  shows "normal_form (L @ [''index.html'']) (indexPath p)"
  using assms clean_index_html by (simp add: index_of_normal_form normal_form_def)

lemma split_abs_path:
  assumes "\<forall>seg \<in> set L. clean seg"
  shows "filter (\<lambda>s. s \<noteq> []) (split_on is_slash (join_with ''/'' L)) = L"
proof (cases "L = []")
  case True
  then show ?thesis by simp
next
  case False
  have "\<forall>seg \<in> set L. CHR ''/'' \<notin> set seg"
    using assms by (simp add: clean_def)
  then have "split_on is_slash (join_with ''/'' L) = L"
    using False by (rule split_join)
  moreover have "filter (\<lambda>s. s \<noteq> []) L = L"
    using assms by (simp add: clean_def filter_id_conv)
  ultimately show ?thesis by simp
qed

lemma normal_form_segments:
  assumes "normal_form L p"
  shows "path_segments p = L"
proof -
  have c: "\<forall>seg \<in> set L. clean seg"
    using assms by (simp add: normal_form_def)
  have a: "path_segments (abs_path L) = L"
    using split_abs_path[OF c] by (simp add: path_segments_def abs_path_def is_slash_def)
  have "split_on is_slash (abs_path L @ ''/'') = split_on is_slash (abs_path L) @ split_on is_slash []"
    using split_on_append_sep[of is_slash "CHR ''/''" "abs_path L" "[]"] by (simp add: is_slash_def)
  then have b: "path_segments (abs_path L @ ''/'') = L"
    using a by (simp add: path_segments_def)
  show ?thesis
    using assms a b by (auto simp: normal_form_def)
qed

lemma normal_form_within:
  assumes "normal_form R root" and "normal_form (R @ M) p"
  shows "within root p"
proof -
  have d: "list_all (\<lambda>s. s \<noteq> ''.'' \<and> s \<noteq> ''..'') L" if "normal_form L q" for L q
    using that by (simp add: normal_form_def clean_def list_all_iff)
  have s: "prefix ''/'' q" if "normal_form L q" for L q
    using that by (auto simp: normal_form_def abs_path_def)
  show ?thesis
    unfolding within_def normal_form_segments[OF assms(1)] normal_form_segments[OF assms(2)]
    using d[OF assms(1)] d[OF assms(2)] s[OF assms(1)] s[OF assms(2)] by simp
qed

lemma absolute_pathname_is_safe:
  assumes "decoded \<noteq> []" and "hd decoded = CHR ''/''"
  shows "isPathSafe env (candidate env decoded)"
proof -
  obtain R where R: "\<forall>seg \<in> set R. clean seg" and w: "WEBROOT env = abs_path R"
    using WEBROOT_abs_path by blast
  have n: "normal_form (R @ kept [] decoded) (candidate env decoded)"
    by (rule candidate_normal_form[OF R w assms])
  have r: "normal_form R (abs_path R)"
    using R by (simp add: normal_form_def)
  show ?thesis
    by (simp add: isPathSafe_def Let_def startsWith_def normal_form_normalize[OF n]
          normal_form_resolve[OF n] w normal_form_resolve[OF r] prefix_abs_path_append)
qed

lemma absolute_pathname_within:
  assumes "decoded \<noteq> []" and "hd decoded = CHR ''/''"
  shows "within (WEBROOT env) (candidate env decoded)"
    and "within (WEBROOT env) (indexPath (candidate env decoded))"
proof -
  obtain R where R: "\<forall>seg \<in> set R. clean seg" and w: "WEBROOT env = abs_path R"
    using WEBROOT_abs_path by blast
  have n: "normal_form (R @ kept [] decoded) (candidate env decoded)"
    by (rule candidate_normal_form[OF R w assms])
  have r: "normal_form R (WEBROOT env)"
    using R w by (simp add: normal_form_def)
  show "within (WEBROOT env) (candidate env decoded)"
    using r n by (rule normal_form_within)
  have "normal_form (R @ (kept [] decoded @ [''index.html''])) (indexPath (candidate env decoded))"
    using index_normal_form[OF n] by simp
  with r show "within (WEBROOT env) (indexPath (candidate env decoded))"
    by (rule normal_form_within)
qed

lemma url_path_state_nonempty:
  assumes "segs \<noteq> []"
  shows "url_path_state acc segs \<noteq> []"
  using assms
proof (induction segs arbitrary: acc)
  case Nil
  then show ?case by simp
next
  case (Cons seg rest)
  show ?case
  proof (cases "rest = []")
    case True
    then show ?thesis by simp
  next
    case False
    then show ?thesis using Cons.IH by simp
  qed
qed

lemma url_pathname_origin_absolute:
  "url_pathname_origin u \<noteq> []" "hd (url_pathname_origin u) = CHR ''/''"
proof -
  let ?p = "url_path_state [] (split_on (\<lambda>c. c = CHR ''/'' \<or> c = backslash)
              (takeWhile (\<lambda>c. c \<noteq> CHR ''?'' \<and> c \<noteq> CHR ''#'') (tl u)))"
  have "?p \<noteq> []"
    by (rule url_path_state_nonempty) simp
  then obtain s ss where "?p = s # ss"
    by (cases ?p) auto
  then show "url_pathname_origin u \<noteq> []" "hd (url_pathname_origin u) = CHR ''/''"
    by (simp_all add: url_pathname_origin_def Let_def)
qed

lemma empty_pathname_candidate:
  assumes "\<forall>seg \<in> set R. clean seg" and "WEBROOT env = abs_path R"
  shows "normal_form R (candidate env [])"
proof -
  have k: "kept R ''.'' = R"
    by (simp add: kept_def normalize_step_def is_slash_def)
  have "normal_form (kept R ''.'') (path_join (abs_path R) ''.'')"
    by (rule path_join_normal_form[OF assms(1)]) simp
  then show ?thesis
    by (simp add: candidate_def assms(2) path_normalize_def k)
qed

lemma empty_pathname_is_safe: "isPathSafe env (candidate env [])"
proof -
  obtain R where R: "\<forall>seg \<in> set R. clean seg" and w: "WEBROOT env = abs_path R"
    using WEBROOT_abs_path by blast
  have n: "normal_form R (candidate env [])"
    by (rule empty_pathname_candidate[OF R w])
  have r: "normal_form R (abs_path R)"
    using R by (simp add: normal_form_def)
  show ?thesis
    using prefix_abs_path_append[of R "[]"]
    by (simp add: isPathSafe_def Let_def startsWith_def normal_form_normalize[OF n]
          normal_form_resolve[OF n] w normal_form_resolve[OF r])
qed

lemma empty_pathname_within:
  shows "within (WEBROOT env) (candidate env [])"
    and "within (WEBROOT env) (indexPath (candidate env []))"
proof -
  obtain R where R: "\<forall>seg \<in> set R. clean seg" and w: "WEBROOT env = abs_path R"
    using WEBROOT_abs_path by blast
  have n: "normal_form (R @ []) (candidate env [])"
    using empty_pathname_candidate[OF R w] by simp
  have r: "normal_form R (WEBROOT env)"
    using R w by (simp add: normal_form_def)
  show "within (WEBROOT env) (candidate env [])"
    using r n by (rule normal_form_within)
  have "normal_form (R @ ([] @ [''index.html''])) (indexPath (candidate env []))"
    using index_normal_form[OF n] by simp
  with r show "within (WEBROOT env) (indexPath (candidate env []))"
    by (rule normal_form_within)
qed

text \<open>A pathname the URL constructor delivers is empty or begins with a slash.\<close>

lemma pathname_rooted:
  assumes "URL_pathname env input b = Some decoded"
  shows "decoded = [] \<or> (decoded \<noteq> [] \<and> hd decoded = CHR ''/'')"
proof (cases "origin_form input")
  case True
  then show ?thesis
    using assms url_pathname_origin_absolute[of input]
    by (auto simp: URL_pathname_def split: if_splits)
next
  case False
  then obtain segs where d: "decoded = concat (map (\<lambda>s. CHR ''/'' # s) segs)"
    using assms by (auto simp: URL_pathname_def split: if_splits option.splits)
  show ?thesis
    unfolding d by (cases segs) simp_all
qed

lemma delivered_pathname_is_safe:
  assumes "URL_pathname env input b = Some decoded"
  shows "isPathSafe env (candidate env decoded)"
  using pathname_rooted[OF assms] absolute_pathname_is_safe empty_pathname_is_safe by blast

lemma delivered_pathname_within:
  assumes "URL_pathname env input b = Some decoded"
  shows "within (WEBROOT env) (candidate env decoded)"
    and "within (WEBROOT env) (indexPath (candidate env decoded))"
  using pathname_rooted[OF assms] absolute_pathname_within empty_pathname_within by blast+

section \<open>Containment\<close>

lemma refused_fs_ops:
  assumes "\<not> (req_method req = ''GET'' \<or> req_method req = ''HEAD'')"
  shows "fs_ops (handleRequest env req w) = fs_ops w"
proof -
  have a: "req_method req \<noteq> ''GET''" and b: "req_method req \<noteq> ''HEAD''"
    using assms by simp_all
  show ?thesis
    unfolding handleRequest_refused[OF a b] by (simp add: effect_defs)
qed

lemma reaches_fs:
  assumes "fs_ops (handleRequest env req w) \<noteq> fs_ops w"
  shows "\<exists>decoded. URL_pathname env (url req) (base_of req) = Some decoded
           \<and> isPathSafe env (candidate env decoded)
           \<and> (\<exists>rest. fs_ops (handleRequest env req w) = fs_ops w @ Stat (candidate env decoded) # rest
                 \<and> op_path ` set rest \<subseteq> {indexPath (candidate env decoded), candidate env decoded})"
proof (cases "req_method req = ''GET'' \<or> req_method req = ''HEAD''")
  case False
  then show ?thesis using assms refused_fs_ops by blast
next
  case True
  show ?thesis
    using assms unfolding handleRequest_allowed[OF True]
    by (auto simp: serveFile_fs_ops split: option.splits sum.splits if_splits)
qed

lemma accessed_paths_within_root:
  "\<forall>op \<in> set (fs_ops (server env req)). within (WEBROOT env) (op_path op)"
proof (cases "fs_ops (server env req) = []")
  case True
  then show ?thesis by simp
next
  case False
  then have "fs_ops (handleRequest env req (fresh req)) \<noteq> fs_ops (fresh req)"
    by (simp add: server_fresh)
  from reaches_fs[OF this] obtain decoded rest where
    d: "URL_pathname env (url req) (base_of req) = Some decoded"
    and f: "fs_ops (server env req) = Stat (candidate env decoded) # rest"
    and r: "op_path ` set rest \<subseteq> {indexPath (candidate env decoded), candidate env decoded}"
    by (auto simp: server_fresh)
  note p = delivered_pathname_within[OF d]
  have "op_path ` set (fs_ops (server env req)) \<subseteq> {indexPath (candidate env decoded), candidate env decoded}"
    using r unfolding f by auto
  then show ?thesis
    using p by auto
qed

text \<open>
  Claim C2.  Every path the handler makes a file system call on (\<^verbatim>\<open>stat\<close> or the read
  stream) names the root directory or something below it, segment by segment; a sibling
  whose name merely begins with the root's name is excluded.  Whenever a call is made, the
  URL constructor has delivered a pathname whose candidate path (the normalized pathname
  joined onto the root) passed the containment check before the call, that is, its
  resolved form begins with the resolved root; the first call is the \<^verbatim>\<open>stat\<close> of that
  candidate, and every later call is made on the candidate or on its index file.  The
  candidate of every pathname the URL constructor delivers passes the check and lies
  within the root: the handler answers 403 before any call when the check fails (the
  third test of \<open>handleRequest_allowed\<close>), but no request has a candidate path that
  fails it.
\<close>

theorem containment_before_file_system:
  "(\<forall>op \<in> set (fs_ops (server env req)). within (WEBROOT env) (op_path op))
   \<and> (fs_ops (server env req) \<noteq> [] \<longrightarrow>
      (\<exists>decoded. URL_pathname env (url req) (base_of req) = Some decoded
         \<and> isPathSafe env (candidate env decoded)
         \<and> startsWith (path_resolve (cwd env) (path_normalize (candidate env decoded)))
                      (path_resolve (cwd env) (WEBROOT env))
         \<and> within (WEBROOT env) (candidate env decoded)
         \<and> hd (fs_ops (server env req)) = Stat (candidate env decoded)
         \<and> op_path ` set (fs_ops (server env req))
              \<subseteq> {candidate env decoded, indexPath (candidate env decoded)}))
   \<and> (\<forall>decoded. URL_pathname env (url req) (base_of req) = Some decoded \<longrightarrow>
        isPathSafe env (candidate env decoded) \<and> within (WEBROOT env) (candidate env decoded))"
proof (intro conjI impI allI)
  show "\<forall>op \<in> set (fs_ops (server env req)). within (WEBROOT env) (op_path op)"
    by (rule accessed_paths_within_root)
next
  assume "fs_ops (server env req) \<noteq> []"
  then have "fs_ops (handleRequest env req (fresh req)) \<noteq> fs_ops (fresh req)"
    by (simp add: server_fresh)
  from reaches_fs[OF this] obtain decoded rest where
    d: "URL_pathname env (url req) (base_of req) = Some decoded"
    and s: "isPathSafe env (candidate env decoded)"
    and f: "fs_ops (server env req) = Stat (candidate env decoded) # rest"
    and r: "op_path ` set rest \<subseteq> {indexPath (candidate env decoded), candidate env decoded}"
    by (auto simp: server_fresh)
  have p: "startsWith (path_resolve (cwd env) (path_normalize (candidate env decoded)))
                      (path_resolve (cwd env) (WEBROOT env))"
    using s by (simp add: isPathSafe_def Let_def)
  have w: "within (WEBROOT env) (candidate env decoded)"
    by (rule delivered_pathname_within(1)[OF d])
  show "\<exists>decoded. URL_pathname env (url req) (base_of req) = Some decoded
         \<and> isPathSafe env (candidate env decoded)
         \<and> startsWith (path_resolve (cwd env) (path_normalize (candidate env decoded)))
                      (path_resolve (cwd env) (WEBROOT env))
         \<and> within (WEBROOT env) (candidate env decoded)
         \<and> hd (fs_ops (server env req)) = Stat (candidate env decoded)
         \<and> op_path ` set (fs_ops (server env req))
              \<subseteq> {candidate env decoded, indexPath (candidate env decoded)}"
    using d s p w r unfolding f by auto
next
  fix decoded
  assume d: "URL_pathname env (url req) (base_of req) = Some decoded"
  show "isPathSafe env (candidate env decoded)"
    by (rule delivered_pathname_is_safe[OF d])
  show "within (WEBROOT env) (candidate env decoded)"
    by (rule delivered_pathname_within(1)[OF d])
qed

lemma run_root:
  "server demo_env (request_for ''GET'' ''/'') =
     \<lparr>res = \<lparr>hasBody = True, status = Some 200,
              headers = [(''Content-Type'', Str ''text/html''),
                         (''Content-Length'', Num 20),
                         (''Last-Modified'', Str ''Thu, 29 Feb 2024 12:00:00 GMT''),
                         (''Cache-Control'', Str ''public, max-age=60'')],
              body = ''Hello, static world!'', finished = True, destroyed = False\<rparr>,
      log_lines = [(''127.0.0.1'', ''GET'', ''/'', 200, 20)],
      fs_ops = [Stat ''/app/public/'', Stat ''/app/public/index.html'',
                CreateReadStream ''/app/public/index.html'']\<rparr>"
  by code_simp

lemma within_examples:
  "WEBROOT demo_env = ''/app/public''"
  "within ''/app/public'' ''/app/public/''"
  "within ''/app/public'' ''/app/public/index.html''"
  "\<not> within ''/app/public'' ''/app/public-evil/secret.txt''"
  "\<not> within ''/app/public'' ''/app/public/../secret.txt''"
  "\<not> within ''/app/public'' ''/etc/passwd''"
  by code_simp+

theorem containment_before_file_system_witness:
  "fs_ops (server demo_env (request_for ''GET'' ''/'')) =
     [Stat ''/app/public/'', Stat ''/app/public/index.html'', CreateReadStream ''/app/public/index.html'']
   \<and> WEBROOT demo_env = ''/app/public''
   \<and> list_all (\<lambda>op. within ''/app/public'' (op_path op)) (fs_ops (server demo_env (request_for ''GET'' ''/'')))
   \<and> URL_pathname demo_env ''/'' ''http://localhost:8080'' = Some ''/''
   \<and> candidate demo_env ''/'' = ''/app/public/''
   \<and> indexPath (candidate demo_env ''/'') = ''/app/public/index.html''
   \<and> isPathSafe demo_env (candidate demo_env ''/'')
   \<and> startsWith (path_resolve (cwd demo_env) (path_normalize (candidate demo_env ''/'')))
                (path_resolve (cwd demo_env) (WEBROOT demo_env))
   \<and> within (WEBROOT demo_env) (candidate demo_env ''/'')
   \<and> hd (fs_ops (server demo_env (request_for ''GET'' ''/''))) = Stat (candidate demo_env ''/'')
   \<and> op_path ` set (fs_ops (server demo_env (request_for ''GET'' ''/'')))
        \<subseteq> {candidate demo_env ''/'', indexPath (candidate demo_env ''/'')}
   \<and> \<not> within ''/app/public'' ''/app/public-evil/secret.txt''"
proof -
  let ?req = "request_for ''GET'' ''/''"
  have f: "fs_ops (server demo_env ?req) =
     [Stat ''/app/public/'', Stat ''/app/public/index.html'', CreateReadStream ''/app/public/index.html'']"
    by (simp add: run_root)
  then have n: "fs_ops (server demo_env ?req) \<noteq> []"
    by simp
  have u: "URL_pathname demo_env ''/'' ''http://localhost:8080'' = Some ''/''"
    by code_simp
  then have u': "URL_pathname demo_env (url ?req) (base_of ?req) = Some ''/''"
    by (simp add: request_for_def base_of_def host_text_def)
  have c: "candidate demo_env ''/'' = ''/app/public/''"
    "indexPath (candidate demo_env ''/'') = ''/app/public/index.html''"
    by code_simp+
  note t = containment_before_file_system[where env = demo_env and req = ?req]
  note t1 = t[THEN conjunct1]
  note t2 = t[THEN conjunct2, THEN conjunct1, rule_format, OF n]
  note t3 = t[THEN conjunct2, THEN conjunct2, rule_format, OF u']
  have l: "list_all (\<lambda>op. within ''/app/public'' (op_path op)) (fs_ops (server demo_env ?req))"
    using t1 unfolding within_examples(1) by (simp add: list_all_iff)
  from t2 obtain decoded where
    d: "URL_pathname demo_env (url ?req) (base_of ?req) = Some decoded"
    and r: "isPathSafe demo_env (candidate demo_env decoded)"
      "startsWith (path_resolve (cwd demo_env) (path_normalize (candidate demo_env decoded)))
                  (path_resolve (cwd demo_env) (WEBROOT demo_env))"
      "within (WEBROOT demo_env) (candidate demo_env decoded)"
      "hd (fs_ops (server demo_env ?req)) = Stat (candidate demo_env decoded)"
      "op_path ` set (fs_ops (server demo_env ?req))
         \<subseteq> {candidate demo_env decoded, indexPath (candidate demo_env decoded)}"
    by blast
  have e: "decoded = ''/''"
    using d u' by simp
  show ?thesis
    using f within_examples(1) l u c r[unfolded e] t3 within_examples(4) by blast
qed

section \<open>File system resolution\<close>

lemma serveFile_status_served:
  "status (res (serveFile env fp st req w)) \<in> {Some 200, Some 304}"
  by (simp add: serveFile_status)

text \<open>
  Claim C4.  For a candidate path that passed the containment check, the first \<^verbatim>\<open>stat\<close>
  decides: the error \<^verbatim>\<open>ENOENT\<close> gives 404; any other error gives 500; a directory makes
  the handler \<^verbatim>\<open>stat\<close> the path with \<^verbatim>\<open>index.html\<close> appended, and an error of that second
  \<^verbatim>\<open>stat\<close>, whatever its code, gives 403; an index file that was found, and anything found
  by the first \<^verbatim>\<open>stat\<close> that is not a directory, goes to \<^verbatim>\<open>serveFile\<close> and is answered
  200 or 304.
\<close>

theorem stat_outcomes:
  assumes "req_method req = ''GET'' \<or> req_method req = ''HEAD''"
    and "\<not> prescreen (url req)"
    and "URL_pathname env (url req) (base_of req) = Some decoded"
    and "isPathSafe env (candidate env decoded)"
  shows "(fs_stat env (candidate env decoded) = Inl ''ENOENT'' \<longrightarrow>
            status (res (server env req)) = Some 404
            \<and> fs_ops (server env req) = [Stat (candidate env decoded)])
       \<and> (\<forall>code. fs_stat env (candidate env decoded) = Inl code \<and> code \<noteq> ''ENOENT'' \<longrightarrow>
            status (res (server env req)) = Some 500
            \<and> fs_ops (server env req) = [Stat (candidate env decoded)])
       \<and> (\<forall>st err. fs_stat env (candidate env decoded) = Inr st \<and> isDirectory st
              \<and> fs_stat env (indexPath (candidate env decoded)) = Inl err \<longrightarrow>
            status (res (server env req)) = Some 403
            \<and> fs_ops (server env req) =
                [Stat (candidate env decoded), Stat (indexPath (candidate env decoded))])
       \<and> (\<forall>st indexStats. fs_stat env (candidate env decoded) = Inr st \<and> isDirectory st
              \<and> fs_stat env (indexPath (candidate env decoded)) = Inr indexStats \<longrightarrow>
            server env req =
              serveFile env (indexPath (candidate env decoded)) indexStats req
                (stat_world (indexPath (candidate env decoded))
                   (stat_world (candidate env decoded) (fresh req)))
            \<and> status (res (server env req)) \<in> {Some 200, Some 304})
       \<and> (\<forall>st. fs_stat env (candidate env decoded) = Inr st \<and> \<not> isDirectory st \<longrightarrow>
            server env req =
              serveFile env (candidate env decoded) st req
                (stat_world (candidate env decoded) (fresh req))
            \<and> status (res (server env req)) \<in> {Some 200, Some 304})"
  unfolding server_fresh handleRequest_allowed[OF assms(1)]
  using assms(2-4) by (simp add: serveFile_status)

lemma resolves_to_cases:
  assumes "resolves_to env req fp st"
  obtains w where "server env req = serveFile env fp st req w" and "res w = ServerResponse req"
    and "fs_ops w \<noteq> []" and "log_lines w = []"
proof -
  have m: "req_method req = ''GET'' \<or> req_method req = ''HEAD''"
    and p: "\<not> prescreen (url req)"
    using assms by (simp_all add: resolves_to_def)
  from assms obtain decoded where
    d: "URL_pathname env (url req) (base_of req) = Some decoded"
    and s: "isPathSafe env (candidate env decoded)"
    and c: "(case fs_stat env (candidate env decoded) of
              Inl code \<Rightarrow> False
            | Inr s \<Rightarrow>
                if isDirectory s
                then fp = indexPath (candidate env decoded)
                     \<and> fs_stat env (indexPath (candidate env decoded)) = Inr st
                else fp = candidate env decoded \<and> st = s)"
    by (auto simp: resolves_to_def split: option.splits)
  from c obtain s0 where s0: "fs_stat env (candidate env decoded) = Inr s0"
    by (cases "fs_stat env (candidate env decoded)") auto
  have r: "res (fresh req) = ServerResponse req"
    by (simp add: fresh_def)
  show thesis
  proof (cases "isDirectory s0")
    case True
    with c s0 have fp: "fp = indexPath (candidate env decoded)"
      and i: "fs_stat env (indexPath (candidate env decoded)) = Inr st"
      by simp_all
    have "server env req = serveFile env fp st req
            (stat_world (indexPath (candidate env decoded)) (stat_world (candidate env decoded) (fresh req)))"
      unfolding server_fresh handleRequest_allowed[OF m] using p d s s0 True i fp by simp
    then show thesis
      by (rule that) (simp_all add: r)
  next
    case False
    with c s0 have fp: "fp = candidate env decoded" and st: "st = s0"
      by simp_all
    have "server env req = serveFile env fp st req (stat_world (candidate env decoded) (fresh req))"
      unfolding server_fresh handleRequest_allowed[OF m] using p d s s0 False fp st by simp
    then show thesis
      by (rule that) (simp_all add: r)
  qed
qed

lemma resolves_to_status:
  assumes "resolves_to env req fp st"
  shows "status (res (server env req)) = Some (if notModified env st req then 304 else 200)"
  using assms by (elim resolves_to_cases) (simp add: serveFile_status)

lemma resolves_to_headers:
  assumes "resolves_to env req fp st"
  shows "headers (res (server env req)) = (if notModified env st req then headers304 st else headers200 fp st)"
  using assms by (elim resolves_to_cases) (simp add: serveFile_headers)

lemma resolves_to_body:
  assumes "resolves_to env req fp st"
  shows "body (res (server env req)) =
           (if notModified env st req \<or> req_method req = ''HEAD'' then [] else fst (fs_read env fp))"
proof -
  from assms obtain w where w: "server env req = serveFile env fp st req w"
    and r: "res w = ServerResponse req"
    by (elim resolves_to_cases)
  have b: "body (res w) = []" and h: "hasBody (res w) = (req_method req \<noteq> ''HEAD'')"
    by (simp_all add: r ServerResponse_def)
  show ?thesis
  proof (cases "notModified env st req")
    case True
    then show ?thesis by (simp add: w serveFile_body_304 b)
  next
    case False
    show ?thesis
    proof (cases "req_method req = ''HEAD''")
      case True
      then have "\<not> hasBody (res w)" using h by simp
      then show ?thesis using True by (simp add: w serveFile_body_closed b)
    next
      case False
      then have "hasBody (res w)" using h by simp
      with False \<open>\<not> notModified env st req\<close> show ?thesis
        by (simp add: w serveFile_body_get b)
    qed
  qed
qed

lemma resolves_to_destroyed:
  assumes "resolves_to env req fp st"
  shows "destroyed (res (server env req)) =
           (\<not> notModified env st req \<and> req_method req \<noteq> ''HEAD'' \<and> snd (fs_read env fp) \<noteq> None)"
  using assms by (elim resolves_to_cases) (simp add: serveFile_destroyed ServerResponse_def)

lemma resolves_to_if_modified_since [simp]:
  "resolves_to env (req\<lparr>if_modified_since := x\<rparr>) fp st = resolves_to env req fp st"
  by (simp add: resolves_to_def base_of_def host_text_def)

lemma demo_allowed:
  "req_method (request_for ''GET'' u) = ''GET'' \<or> req_method (request_for ''GET'' u) = ''HEAD''"
  "req_method (request_for ''HEAD'' u) = ''GET'' \<or> req_method (request_for ''HEAD'' u) = ''HEAD''"
  by (simp_all add: request_for_def)

lemma demo_url [simp]: "url (request_for m u) = u"
  by (simp add: request_for_def)

lemma demo_pathname:
  assumes "origin_form u"
  shows "URL_pathname demo_env u (base_of (request_for m u)) = Some (url_pathname_origin u)"
  using assms by (simp add: URL_pathname_def demo_env_def request_for_def base_of_def host_text_def)

lemma demo_targets:
  "origin_form ''/missing.txt''" "\<not> prescreen ''/missing.txt''"
  "url_pathname_origin ''/missing.txt'' = ''/missing.txt''"
  "origin_form ''/private/key.pem''" "\<not> prescreen ''/private/key.pem''"
  "url_pathname_origin ''/private/key.pem'' = ''/private/key.pem''"
  "origin_form ''/empty/''" "\<not> prescreen ''/empty/''"
  "url_pathname_origin ''/empty/'' = ''/empty/''"
  "origin_form ''/''" "\<not> prescreen ''/''"
  "url_pathname_origin ''/'' = ''/''"
  "origin_form ''/index.html''" "\<not> prescreen ''/index.html''"
  "url_pathname_origin ''/index.html'' = ''/index.html''"
  "origin_form ''/docs/''" "\<not> prescreen ''/docs/''"
  "url_pathname_origin ''/docs/'' = ''/docs/''"
  by code_simp+

lemma demo_candidates:
  "candidate demo_env ''/missing.txt'' = ''/app/public/missing.txt''"
  "candidate demo_env ''/private/key.pem'' = ''/app/public/private/key.pem''"
  "candidate demo_env ''/empty/'' = ''/app/public/empty/''"
  "candidate demo_env ''/'' = ''/app/public/''"
  "candidate demo_env ''/index.html'' = ''/app/public/index.html''"
  "candidate demo_env ''/docs/'' = ''/app/public/docs/''"
  "indexPath ''/app/public/empty/'' = ''/app/public/empty/index.html''"
  "indexPath ''/app/public/'' = ''/app/public/index.html''"
  "indexPath ''/app/public/docs/'' = ''/app/public/docs/index.html''"
  by code_simp+

lemma demo_safe:
  "isPathSafe demo_env ''/app/public/missing.txt''"
  "isPathSafe demo_env ''/app/public/private/key.pem''"
  "isPathSafe demo_env ''/app/public/empty/''"
  "isPathSafe demo_env ''/app/public/''"
  "isPathSafe demo_env ''/app/public/index.html''"
  "isPathSafe demo_env ''/app/public/docs/''"
  by code_simp+

lemma demo_fs:
  "fs_stat demo_env ''/app/public/missing.txt'' = Inl ''ENOENT''"
  "fs_stat demo_env ''/app/public/private/key.pem'' = Inl ''EACCES''"
  "fs_stat demo_env ''/app/public/empty/'' = Inr demo_dir"
  "fs_stat demo_env ''/app/public/empty/index.html'' = Inl ''ENOENT''"
  "fs_stat demo_env ''/app/public/'' = Inr demo_dir"
  "fs_stat demo_env ''/app/public/index.html'' =
     Inr \<lparr>isDirectory = False, st_size = 20, mtime = 1709208000123\<rparr>"
  "fs_stat demo_env ''/app/public/docs/'' = Inr demo_dir"
  "fs_stat demo_env ''/app/public/docs/index.html'' = Inr demo_dir"
  "fs_read demo_env ''/app/public/index.html'' = (''Hello, static world!'', None)"
  "fs_read demo_env ''/app/public/docs/index.html'' = ([], Some ''EISDIR'')"
  by (simp_all add: demo_env_def demo_stat_def demo_read_def)

theorem stat_outcomes_witness:
  "status (res (server demo_env (request_for ''GET'' ''/missing.txt''))) = Some 404
   \<and> status (res (server demo_env (request_for ''GET'' ''/private/key.pem''))) = Some 500
   \<and> status (res (server demo_env (request_for ''GET'' ''/empty/''))) = Some 403
   \<and> fs_ops (server demo_env (request_for ''GET'' ''/empty/'')) =
       [Stat ''/app/public/empty/'', Stat ''/app/public/empty/index.html'']
   \<and> status (res (server demo_env (request_for ''GET'' ''/''))) \<in> {Some 200, Some 304}
   \<and> status (res (server demo_env (request_for ''GET'' ''/index.html''))) \<in> {Some 200, Some 304}"
proof -
  note missing = stat_outcomes[where env = demo_env and req = "request_for ''GET'' ''/missing.txt''"
      and decoded = "''/missing.txt''", OF demo_allowed(1)]
  note denied = stat_outcomes[where env = demo_env and req = "request_for ''GET'' ''/private/key.pem''"
      and decoded = "''/private/key.pem''", OF demo_allowed(1)]
  note empty = stat_outcomes[where env = demo_env and req = "request_for ''GET'' ''/empty/''"
      and decoded = "''/empty/''", OF demo_allowed(1)]
  note root = stat_outcomes[where env = demo_env and req = "request_for ''GET'' ''/''"
      and decoded = "''/''", OF demo_allowed(1)]
  note index = stat_outcomes[where env = demo_env and req = "request_for ''GET'' ''/index.html''"
      and decoded = "''/index.html''", OF demo_allowed(1)]
  have d: "isDirectory demo_dir"
    by (simp add: demo_dir_def)
  have 1: "status (res (server demo_env (request_for ''GET'' ''/missing.txt''))) = Some 404"
    using missing by (simp add: demo_pathname demo_targets demo_candidates demo_safe demo_fs)
  have 2: "status (res (server demo_env (request_for ''GET'' ''/private/key.pem''))) = Some 500"
    using denied by (simp add: demo_pathname demo_targets demo_candidates demo_safe demo_fs)
  have 3: "status (res (server demo_env (request_for ''GET'' ''/empty/''))) = Some 403
        \<and> fs_ops (server demo_env (request_for ''GET'' ''/empty/'')) =
            [Stat ''/app/public/empty/'', Stat ''/app/public/empty/index.html'']"
    using empty d by (simp add: demo_pathname demo_targets demo_candidates demo_safe demo_fs)
  have 4: "status (res (server demo_env (request_for ''GET'' ''/''))) \<in> {Some 200, Some 304}"
    using root d by (simp add: demo_pathname demo_targets demo_candidates demo_safe demo_fs serveFile_status)
  have 5: "status (res (server demo_env (request_for ''GET'' ''/index.html''))) \<in> {Some 200, Some 304}"
    using index by (simp add: demo_pathname demo_targets demo_candidates demo_safe demo_fs serveFile_status)
  show ?thesis
    using 1 2 3 4 5 by blast
qed


section \<open>Conditional requests\<close>

lemma fresh_if_modified_since [simp]: "fresh (req\<lparr>if_modified_since := x\<rparr>) = fresh req"
  by (simp add: fresh_def ServerResponse_def)

lemma base_of_if_modified_since [simp]: "base_of (req\<lparr>if_modified_since := x\<rparr>) = base_of req"
  by (simp add: base_of_def host_text_def)

lemma resolves_to_any_header:
  assumes "resolves_to env req fp st"
  obtains w where "\<forall>x. server env (req\<lparr>if_modified_since := x\<rparr>) =
                         serveFile env fp st (req\<lparr>if_modified_since := x\<rparr>) w"
proof -
  have m: "\<And>x. req_method (req\<lparr>if_modified_since := x\<rparr>) = ''GET''
             \<or> req_method (req\<lparr>if_modified_since := x\<rparr>) = ''HEAD''"
    and p: "\<not> prescreen (url req)"
    using assms by (simp_all add: resolves_to_def)
  from assms obtain decoded where
    d: "URL_pathname env (url req) (base_of req) = Some decoded"
    and s: "isPathSafe env (candidate env decoded)"
    and c: "(case fs_stat env (candidate env decoded) of
              Inl code \<Rightarrow> False
            | Inr s \<Rightarrow>
                if isDirectory s
                then fp = indexPath (candidate env decoded)
                     \<and> fs_stat env (indexPath (candidate env decoded)) = Inr st
                else fp = candidate env decoded \<and> st = s)"
    by (auto simp: resolves_to_def split: option.splits)
  from c obtain s0 where s0: "fs_stat env (candidate env decoded) = Inr s0"
    by (cases "fs_stat env (candidate env decoded)") auto
  show thesis
  proof (cases "isDirectory s0")
    case True
    with c s0 have fp: "fp = indexPath (candidate env decoded)"
      and i: "fs_stat env (indexPath (candidate env decoded)) = Inr st"
      by simp_all
    have "\<And>x. server env (req\<lparr>if_modified_since := x\<rparr>) = serveFile env fp st (req\<lparr>if_modified_since := x\<rparr>)
            (stat_world (indexPath (candidate env decoded)) (stat_world (candidate env decoded) (fresh req)))"
      unfolding server_fresh handleRequest_allowed[OF m] using p d s s0 True i fp by simp
    then show thesis
      by (intro that allI)
  next
    case False
    with c s0 have fp: "fp = candidate env decoded" and st: "st = s0"
      by simp_all
    have "\<And>x. server env (req\<lparr>if_modified_since := x\<rparr>) = serveFile env fp st (req\<lparr>if_modified_since := x\<rparr>)
            (stat_world (candidate env decoded) (fresh req))"
      unfolding server_fresh handleRequest_allowed[OF m] using p d s s0 False fp st by simp
    then show thesis
      by (intro that allI)
  qed
qed

lemma serveFile_header_ignored:
  assumes "\<not> notModified env st req"
  shows "serveFile env fp st req w = serveFile env fp st (req\<lparr>if_modified_since := None\<rparr>) w"
proof -
  have n: "\<not> notModified env st (req\<lparr>if_modified_since := None\<rparr>)"
    by (simp add: notModified_def)
  show ?thesis
    unfolding serveFile_modified[OF assms] serveFile_modified[OF n]
    by (simp add: effect_defs)
qed

lemma header_treated_as_absent:
  assumes "resolves_to env req fp st" and "\<not> notModified env st req"
  shows "server env req = server env (req\<lparr>if_modified_since := None\<rparr>)"
proof -
  from assms(1) obtain w where
    "\<forall>x. server env (req\<lparr>if_modified_since := x\<rparr>) = serveFile env fp st (req\<lparr>if_modified_since := x\<rparr>) w"
    by (rule resolves_to_any_header)
  then have w: "server env (req\<lparr>if_modified_since := x\<rparr>) = serveFile env fp st (req\<lparr>if_modified_since := x\<rparr>) w" for x
    by blast
  have "server env req = serveFile env fp st req w"
    using w[of "if_modified_since req"] by simp
  also have "\<dots> = serveFile env fp st (req\<lparr>if_modified_since := None\<rparr>) w"
    by (rule serveFile_header_ignored[OF assms(2)])
  also have "\<dots> = server env (req\<lparr>if_modified_since := None\<rparr>)"
    by (rule w[symmetric])
  finally show ?thesis .
qed


text \<open>
  What the handler does with a conditional header \<open>v\<close> on a request that resolves to a file
  with metadata \<open>st\<close>, in terms of the two time values it compares: \<open>t\<close>, parsed from the
  header, and \<open>l\<close>, parsed from the \<^verbatim>\<open>Last-Modified\<close> text the handler has just produced
  from the modification time.  If \<open>l \<le> t\<close> the answer is 304 with exactly the headers
  \<^verbatim>\<open>Last-Modified\<close> and \<^verbatim>\<open>Cache-Control\<close> and no body, for \<^verbatim>\<open>GET\<close> and for \<^verbatim>\<open>HEAD\<close> (the
  empty string is never a date in JavaScript, hence \<open>v \<noteq> []\<close>).  If \<open>t < l\<close>, or if one of
  the two texts does not parse, the answer is the 200 response the request would get
  without the header, never an error; for \<^verbatim>\<open>GET\<close> its body is what the read stream
  delivers.
\<close>

lemma conditional_request_parsed:
  assumes "resolves_to env req fp st" and "if_modified_since req = Some v"
  shows "(\<forall>l t. v \<noteq> [] \<and> Date_parse env v = Some t
            \<and> Date_parse env (toUTCString (mtime st)) = Some l \<and> l \<le> t \<longrightarrow>
            status (res (server env req)) = Some 304
            \<and> headers (res (server env req)) =
                [(''Last-Modified'', Str (toUTCString (mtime st))),
                 (''Cache-Control'', Str ''public, max-age=60'')]
            \<and> body (res (server env req)) = [])
       \<and> (\<forall>l t. Date_parse env v = Some t
            \<and> Date_parse env (toUTCString (mtime st)) = Some l \<and> t < l \<longrightarrow>
            status (res (server env req)) = Some 200
            \<and> server env req = server env (req\<lparr>if_modified_since := None\<rparr>)
            \<and> (req_method req = ''GET'' \<longrightarrow> body (res (server env req)) = fst (fs_read env fp)))
       \<and> (Date_parse env v = None \<or> Date_parse env (toUTCString (mtime st)) = None \<longrightarrow>
            status (res (server env req)) = Some 200
            \<and> server env req = server env (req\<lparr>if_modified_since := None\<rparr>)
            \<and> (req_method req = ''GET'' \<longrightarrow> body (res (server env req)) = fst (fs_read env fp)))"
proof (intro conjI allI impI)
  fix l t
  assume a: "v \<noteq> [] \<and> Date_parse env v = Some t
            \<and> Date_parse env (toUTCString (mtime st)) = Some l \<and> l \<le> t"
  then have n: "notModified env st req"
    using assms(2) by (simp add: notModified_def date_le_def)
  show "status (res (server env req)) = Some 304"
    using n by (simp add: resolves_to_status[OF assms(1)])
  show "headers (res (server env req)) =
          [(''Last-Modified'', Str (toUTCString (mtime st))),
           (''Cache-Control'', Str ''public, max-age=60'')]"
    using n by (simp add: resolves_to_headers[OF assms(1)] headers304_def)
  show "body (res (server env req)) = []"
    using n by (simp add: resolves_to_body[OF assms(1)])
next
  fix l t
  assume a: "Date_parse env v = Some t
            \<and> Date_parse env (toUTCString (mtime st)) = Some l \<and> t < l"
  then have n: "\<not> notModified env st req"
    using assms(2) by (simp add: notModified_def date_le_def)
  show "status (res (server env req)) = Some 200"
    using n by (simp add: resolves_to_status[OF assms(1)])
  show "server env req = server env (req\<lparr>if_modified_since := None\<rparr>)"
    by (rule header_treated_as_absent[OF assms(1) n])
  show "body (res (server env req)) = fst (fs_read env fp)" if "req_method req = ''GET''"
    using n that by (simp add: resolves_to_body[OF assms(1)])
next
  assume a: "Date_parse env v = None \<or> Date_parse env (toUTCString (mtime st)) = None"
  then have n: "\<not> notModified env st req"
    using assms(2) by (auto simp: notModified_def date_le_def split: option.split)
  show "status (res (server env req)) = Some 200"
    using n by (simp add: resolves_to_status[OF assms(1)])
  show "server env req = server env (req\<lparr>if_modified_since := None\<rparr>)"
    by (rule header_treated_as_absent[OF assms(1) n])
  show "body (res (server env req)) = fst (fs_read env fp)" if "req_method req = ''GET''"
    using n that by (simp add: resolves_to_body[OF assms(1)])
qed

lemma demo_index_resolves:
  "resolves_to demo_env (request_for ''GET'' ''/index.html'') ''/app/public/index.html''
     \<lparr>isDirectory = False, st_size = 20, mtime = 1709208000123\<rparr>"
  "resolves_to demo_env (request_for ''HEAD'' ''/index.html'') ''/app/public/index.html''
     \<lparr>isDirectory = False, st_size = 20, mtime = 1709208000123\<rparr>"
  by (simp_all add: resolves_to_def demo_allowed demo_targets demo_pathname demo_candidates
        demo_safe demo_fs)

lemma demo_last_modified:
  "toUTCString 1709208000123 = ''Thu, 29 Feb 2024 12:00:00 GMT''"
  by code_simp

lemma demo_parse:
  "Date_parse demo_env ''Thu, 29 Feb 2024 12:00:00 GMT'' = Some 1709208000000"
  "Date_parse demo_env ''Thu, 29 Feb 2024 11:59:59 GMT'' = Some 1709207999000"
  "Date_parse demo_env ''yesterday'' = None"
  "Date_parse demo_env ''Thu, 01 Jan 1970 00:00:00 GMT'' = Some 0"
  "Date_parse demo_env ''Sat, 01 Jan 0000 00:00:00 GMT'' = Some 946684800000"
  by (simp_all add: demo_env_def demo_dates_def)

text \<open>On the sample file of 2024, whose \<^verbatim>\<open>Last-Modified\<close> text parses to its modification
  time cut to whole seconds, the three cases give what one expects.\<close>

lemma conditional_request_examples:
  "status (res (server demo_env
      ((request_for ''GET'' ''/index.html'')\<lparr>if_modified_since := Some ''Thu, 29 Feb 2024 12:00:00 GMT''\<rparr>))) = Some 304
   \<and> headers (res (server demo_env
      ((request_for ''GET'' ''/index.html'')\<lparr>if_modified_since := Some ''Thu, 29 Feb 2024 12:00:00 GMT''\<rparr>))) =
        [(''Last-Modified'', Str ''Thu, 29 Feb 2024 12:00:00 GMT''),
         (''Cache-Control'', Str ''public, max-age=60'')]
   \<and> body (res (server demo_env
      ((request_for ''GET'' ''/index.html'')\<lparr>if_modified_since := Some ''Thu, 29 Feb 2024 12:00:00 GMT''\<rparr>))) = []
   \<and> status (res (server demo_env
      ((request_for ''HEAD'' ''/index.html'')\<lparr>if_modified_since := Some ''Thu, 29 Feb 2024 12:00:00 GMT''\<rparr>))) = Some 304
   \<and> status (res (server demo_env
      ((request_for ''GET'' ''/index.html'')\<lparr>if_modified_since := Some ''Thu, 29 Feb 2024 11:59:59 GMT''\<rparr>))) = Some 200
   \<and> body (res (server demo_env
      ((request_for ''GET'' ''/index.html'')\<lparr>if_modified_since := Some ''Thu, 29 Feb 2024 11:59:59 GMT''\<rparr>))) =
        ''Hello, static world!''
   \<and> status (res (server demo_env
      ((request_for ''GET'' ''/index.html'')\<lparr>if_modified_since := Some ''yesterday''\<rparr>))) = Some 200
   \<and> body (res (server demo_env
      ((request_for ''GET'' ''/index.html'')\<lparr>if_modified_since := Some ''yesterday''\<rparr>))) =
        ''Hello, static world!''"
proof -
  let ?st = "\<lparr>isDirectory = False, st_size = 20, mtime = 1709208000123\<rparr>"
  let ?same = "(request_for ''GET'' ''/index.html'')\<lparr>if_modified_since := Some ''Thu, 29 Feb 2024 12:00:00 GMT''\<rparr>"
  let ?head = "(request_for ''HEAD'' ''/index.html'')\<lparr>if_modified_since := Some ''Thu, 29 Feb 2024 12:00:00 GMT''\<rparr>"
  let ?earlier = "(request_for ''GET'' ''/index.html'')\<lparr>if_modified_since := Some ''Thu, 29 Feb 2024 11:59:59 GMT''\<rparr>"
  let ?unparsed = "(request_for ''GET'' ''/index.html'')\<lparr>if_modified_since := Some ''yesterday''\<rparr>"
  have m: "req_method ((request_for ''GET'' ''/index.html'')\<lparr>if_modified_since := x\<rparr>) = ''GET''" for x
    by (simp add: request_for_def)
  have r: "resolves_to demo_env ((request_for ''GET'' ''/index.html'')\<lparr>if_modified_since := x\<rparr>)
             ''/app/public/index.html'' ?st"
    and rh: "resolves_to demo_env ((request_for ''HEAD'' ''/index.html'')\<lparr>if_modified_since := x\<rparr>)
             ''/app/public/index.html'' ?st" for x
    by (simp_all add: demo_index_resolves)
  have f: "fst (fs_read demo_env ''/app/public/index.html'') = ''Hello, static world!''"
    by (simp add: demo_fs)
  have le: "''Thu, 29 Feb 2024 12:00:00 GMT'' \<noteq> []
            \<and> Date_parse demo_env ''Thu, 29 Feb 2024 12:00:00 GMT'' = Some 1709208000000
            \<and> Date_parse demo_env (toUTCString (mtime ?st)) = Some 1709208000000
            \<and> (1709208000000 :: int) \<le> 1709208000000"
    by (simp add: demo_last_modified demo_parse)
  have gt: "Date_parse demo_env ''Thu, 29 Feb 2024 11:59:59 GMT'' = Some 1709207999000
            \<and> Date_parse demo_env (toUTCString (mtime ?st)) = Some 1709208000000
            \<and> (1709207999000 :: int) < 1709208000000"
    by (simp add: demo_last_modified demo_parse)
  have no: "Date_parse demo_env ''yesterday'' = None
            \<or> Date_parse demo_env (toUTCString (mtime ?st)) = None"
    by (simp add: demo_parse)
  note same = conditional_request_parsed[where env = demo_env and req = ?same, OF r, THEN conjunct1, rule_format, OF _ le]
  note head = conditional_request_parsed[where env = demo_env and req = ?head, OF rh, THEN conjunct1, rule_format, OF _ le]
  note earlier = conditional_request_parsed[where env = demo_env and req = ?earlier, OF r,
      THEN conjunct2, THEN conjunct1, rule_format, OF _ gt]
  note unparsed = conditional_request_parsed[where env = demo_env and req = ?unparsed, OF r,
      THEN conjunct2, THEN conjunct2, rule_format, OF _ no]
  have 1: "status (res (server demo_env ?same)) = Some 304
     \<and> headers (res (server demo_env ?same)) =
          [(''Last-Modified'', Str (toUTCString (mtime ?st))), (''Cache-Control'', Str ''public, max-age=60'')]
     \<and> body (res (server demo_env ?same)) = []"
    by (rule same) simp
  have 2: "status (res (server demo_env ?head)) = Some 304"
    using head by simp
  have 3: "status (res (server demo_env ?earlier)) = Some 200
     \<and> server demo_env ?earlier = server demo_env (?earlier\<lparr>if_modified_since := None\<rparr>)
     \<and> (req_method ?earlier = ''GET'' \<longrightarrow>
          body (res (server demo_env ?earlier)) = fst (fs_read demo_env ''/app/public/index.html''))"
    by (rule earlier) simp
  have 4: "status (res (server demo_env ?unparsed)) = Some 200
     \<and> server demo_env ?unparsed = server demo_env (?unparsed\<lparr>if_modified_since := None\<rparr>)
     \<and> (req_method ?unparsed = ''GET'' \<longrightarrow>
          body (res (server demo_env ?unparsed)) = fst (fs_read demo_env ''/app/public/index.html''))"
    by (rule unparsed) simp
  have l: "toUTCString (mtime ?st) = ''Thu, 29 Feb 2024 12:00:00 GMT''"
    by (simp add: demo_last_modified)
  show ?thesis
    using 1 2 3 4 m f unfolding l by metis
qed

subsection \<open>A file older than the year 100\<close>

lemma run_old_file:
  "server demo_env
     ((request_for ''GET'' ''/old.txt'')\<lparr>if_modified_since := Some ''Thu, 01 Jan 1970 00:00:00 GMT''\<rparr>) =
     \<lparr>res = \<lparr>hasBody = True, status = Some 200,
              headers = [(''Content-Type'', Str ''text/plain''),
                         (''Content-Length'', Num 3),
                         (''Last-Modified'', Str ''Sat, 01 Jan 0000 00:00:00 GMT''),
                         (''Cache-Control'', Str ''public, max-age=60'')],
              body = ''old'', finished = True, destroyed = False\<rparr>,
      log_lines = [(''127.0.0.1'', ''GET'', ''/old.txt'', 200, 3)],
      fs_ops = [Stat ''/app/public/old.txt'', CreateReadStream ''/app/public/old.txt'']\<rparr>"
  by code_simp

lemma demo_old_file:
  "origin_form ''/old.txt''" "\<not> prescreen ''/old.txt''"
  "url_pathname_origin ''/old.txt'' = ''/old.txt''"
  "candidate demo_env ''/old.txt'' = ''/app/public/old.txt''"
  "isPathSafe demo_env ''/app/public/old.txt''"
  "toUTCString (- 62167219200000) = ''Sat, 01 Jan 0000 00:00:00 GMT''"
  "whole_seconds (- 62167219200000) = - 62167219200000"
  by code_simp+

lemma demo_old_file_resolves:
  "resolves_to demo_env
     ((request_for ''GET'' ''/old.txt'')\<lparr>if_modified_since := Some ''Thu, 01 Jan 1970 00:00:00 GMT''\<rparr>)
     ''/app/public/old.txt'' \<lparr>isDirectory = False, st_size = 3, mtime = - 62167219200000\<rparr>"
proof -
  have f: "fs_stat demo_env ''/app/public/old.txt'' =
             Inr \<lparr>isDirectory = False, st_size = 3, mtime = - 62167219200000\<rparr>"
    by (simp add: demo_env_def demo_stat_def)
  show ?thesis
    by (simp add: resolves_to_def demo_allowed demo_old_file demo_pathname f)
qed

text \<open>
  Claim C3.  The handler does not compare the modification time itself with the header's
  time stamp: it parses its own \<^verbatim>\<open>Last-Modified\<close> text again and compares the result.  For
  a file last modified in the years 0 to 99 that is another time: the text of
  0000-01-01 00:00:00 UTC is \<^verbatim>\<open>Sat, 01 Jan 0000 00:00:00 GMT\<close>, and \<^verbatim>\<open>Date.parse\<close> of V8 reads
  the year of such a text as 2000.  So a \<^verbatim>\<open>GET\<close> for that file carrying
  \<^verbatim>\<open>If-Modified-Since: Thu, 01 Jan 1970 00:00:00 GMT\<close>, a header that parses to the valid
  time stamp 0, later than the file's modification time (which is a whole second), is
  answered 200 with the file's bytes, not 304 with an empty body.
\<close>

theorem old_file_is_sent_again:
  "resolves_to demo_env
     ((request_for ''GET'' ''/old.txt'')\<lparr>if_modified_since := Some ''Thu, 01 Jan 1970 00:00:00 GMT''\<rparr>)
     ''/app/public/old.txt'' \<lparr>isDirectory = False, st_size = 3, mtime = - 62167219200000\<rparr>
   \<and> Date_parse demo_env ''Thu, 01 Jan 1970 00:00:00 GMT'' = Some 0
   \<and> whole_seconds (- 62167219200000) = - 62167219200000
   \<and> whole_seconds (- 62167219200000) \<le> 0
   \<and> toUTCString (- 62167219200000) = ''Sat, 01 Jan 0000 00:00:00 GMT''
   \<and> Date_parse demo_env ''Sat, 01 Jan 0000 00:00:00 GMT'' = Some 946684800000
   \<and> status (res (server demo_env
        ((request_for ''GET'' ''/old.txt'')\<lparr>if_modified_since := Some ''Thu, 01 Jan 1970 00:00:00 GMT''\<rparr>))) = Some 200
   \<and> status (res (server demo_env
        ((request_for ''GET'' ''/old.txt'')\<lparr>if_modified_since := Some ''Thu, 01 Jan 1970 00:00:00 GMT''\<rparr>))) \<noteq> Some 304
   \<and> body (res (server demo_env
        ((request_for ''GET'' ''/old.txt'')\<lparr>if_modified_since := Some ''Thu, 01 Jan 1970 00:00:00 GMT''\<rparr>))) = ''old''"
proof -
  let ?req = "(request_for ''GET'' ''/old.txt'')\<lparr>if_modified_since := Some ''Thu, 01 Jan 1970 00:00:00 GMT''\<rparr>"
  have s: "status (res (server demo_env ?req)) = Some 200"
    and b: "body (res (server demo_env ?req)) = ''old''"
    by (simp_all add: run_old_file)
  have n: "status (res (server demo_env ?req)) \<noteq> Some 304"
    unfolding s by simp
  have w: "whole_seconds (- 62167219200000) \<le> 0"
    unfolding demo_old_file(7) by simp
  show ?thesis
    using demo_old_file_resolves demo_parse(4) demo_old_file(7) w demo_old_file(6) demo_parse(5) s n b
    by (intro conjI)
qed

section \<open>The full response\<close>

lemma MIME_TYPES_distinct: "distinct (map fst MIME_TYPES)"
  by (simp add: MIME_TYPES_def)

lemma getMimeType_known:
  assumes "(toLowerCase (path_extname fp), t) \<in> set MIME_TYPES"
  shows "getMimeType fp = t"
  using assms MIME_TYPES_distinct by (simp add: getMimeType_def)

lemma getMimeType_unknown:
  assumes "toLowerCase (path_extname fp) \<notin> fst ` set MIME_TYPES"
  shows "getMimeType fp = ''application/octet-stream''"
proof -
  have "map_of MIME_TYPES (toLowerCase (path_extname fp)) = None"
    using assms by (simp only: map_of_eq_None_iff not_False_eq_True)
  then show ?thesis
    by (simp add: getMimeType_def)
qed

lemma fs_read_irrelevant [simp]:
  "URL_pathname (env\<lparr>fs_read := r\<rparr>) input b = URL_pathname env input b"
  "candidate (env\<lparr>fs_read := r\<rparr>) decoded = candidate env decoded"
  "isPathSafe (env\<lparr>fs_read := r\<rparr>) p = isPathSafe env p"
  by (simp_all add: URL_pathname_def isPathSafe_def candidate_def WEBROOT_def cwd_def)

lemma resolves_to_fs_read [simp]:
  "resolves_to (env\<lparr>fs_read := r\<rparr>) req fp st = resolves_to env req fp st"
  by (simp add: resolves_to_def cong: option.case_cong sum.case_cong)

lemma notModified_fs_read [simp]:
  "notModified (env\<lparr>fs_read := r\<rparr>) st req = notModified env st req"
  by (simp add: notModified_def cong: option.case_cong)

text \<open>
  Claim C7.  Let a request resolve to the file \<open>fp\<close> with metadata \<open>st\<close> and be answered
  200.  The headers are exactly \<^verbatim>\<open>Content-Type\<close>, \<^verbatim>\<open>Content-Length\<close>, \<^verbatim>\<open>Last-Modified\<close> and
  \<^verbatim>\<open>Cache-Control\<close>: the content type is looked up in \<^verbatim>\<open>MIME_TYPES\<close> under the lower-cased
  extension of the path, with \<^verbatim>\<open>application/octet-stream\<close> for an extension the table does
  not have; the length is the size \<^verbatim>\<open>stat\<close> reported; \<^verbatim>\<open>Last-Modified\<close> is the modification
  time printed by \<^verbatim>\<open>toUTCString\<close>; \<^verbatim>\<open>Cache-Control\<close> is \<^verbatim>\<open>public, max-age=60\<close>.  The headers
  do not depend on what the file holds (the same request against any other content of the
  read stream gets the same headers).  For \<^verbatim>\<open>GET\<close>, when the read stream delivers \<open>data\<close>
  and ends without error, the body is \<open>data\<close>, the response is ended and not destroyed; and
  when the reported size is the length of \<open>data\<close>, \<^verbatim>\<open>Content-Length\<close> is the length of the
  body.
\<close>

theorem full_response:
  assumes "resolves_to env req fp st" and "status (res (server env req)) = Some 200"
  shows "headers (res (server env req)) =
           [(''Content-Type'', Str (getMimeType fp)),
            (''Content-Length'', Num (st_size st)),
            (''Last-Modified'', Str (toUTCString (mtime st))),
            (''Cache-Control'', Str ''public, max-age=60'')]
       \<and> (\<forall>t. (toLowerCase (path_extname fp), t) \<in> set MIME_TYPES \<longrightarrow> getMimeType fp = t)
       \<and> (toLowerCase (path_extname fp) \<notin> fst ` set MIME_TYPES \<longrightarrow>
            getMimeType fp = ''application/octet-stream'')
       \<and> headers (res (server (env\<lparr>fs_read := other\<rparr>) req)) = headers (res (server env req))
       \<and> (\<forall>data. req_method req = ''GET'' \<and> fs_read env fp = (data, None) \<longrightarrow>
            body (res (server env req)) = data
            \<and> \<not> destroyed (res (server env req))
            \<and> (st_size st = length data \<longrightarrow>
                 map_of (headers (res (server env req))) ''Content-Length'' =
                   Some (Num (length (body (res (server env req)))))))"
proof -
  have n: "\<not> notModified env st req"
    using assms(2) by (simp add: resolves_to_status[OF assms(1)] split: if_splits)
  have r: "resolves_to (env\<lparr>fs_read := other\<rparr>) req fp st"
    using assms(1) by simp
  have h: "headers (res (server env req)) = headers200 fp st"
    using n by (simp add: resolves_to_headers[OF assms(1)])
  have h': "headers (res (server (env\<lparr>fs_read := other\<rparr>) req)) = headers200 fp st"
    using n by (simp add: resolves_to_headers[OF r])
  have b: "body (res (server env req)) = data \<and> \<not> destroyed (res (server env req))"
    if "req_method req = ''GET''" and "fs_read env fp = (data, None)" for data
    using n that by (simp add: resolves_to_body[OF assms(1)] resolves_to_destroyed[OF assms(1)])
  have l: "map_of (headers200 fp st) ''Content-Length'' = Some (Num (st_size st))"
    by (simp add: headers200_def)
  show ?thesis
    unfolding h h' l using b
    by (auto simp: headers200_def getMimeType_known getMimeType_unknown)
qed

lemma demo_data_bin:
  "origin_form ''/data.bin''" "\<not> prescreen ''/data.bin''"
  "url_pathname_origin ''/data.bin'' = ''/data.bin''"
  "candidate demo_env ''/data.bin'' = ''/app/public/data.bin''"
  "isPathSafe demo_env ''/app/public/data.bin''"
  "toUTCString 0 = ''Thu, 01 Jan 1970 00:00:00 GMT''"
  "(toLowerCase (path_extname ''/app/public/index.html''), ''text/html'') \<in> set MIME_TYPES"
  "toLowerCase (path_extname ''/app/public/data.bin'') \<notin> fst ` set MIME_TYPES"
  by code_simp+

lemma demo_data_bin_fs:
  "fs_stat demo_env ''/app/public/data.bin'' = Inr \<lparr>isDirectory = False, st_size = 3, mtime = 0\<rparr>"
  "fs_read demo_env ''/app/public/data.bin'' = (''abc'', None)"
  by (simp_all add: demo_env_def demo_stat_def demo_read_def)

lemma demo_data_bin_resolves:
  "resolves_to demo_env (request_for ''GET'' ''/data.bin'') ''/app/public/data.bin''
     \<lparr>isDirectory = False, st_size = 3, mtime = 0\<rparr>"
  by (simp add: resolves_to_def demo_allowed demo_pathname demo_data_bin demo_data_bin_fs)

lemma demo_unconditional [simp]: "\<not> notModified env st (request_for m u)"
  by (simp add: notModified_def request_for_def)

theorem full_response_witness:
  "headers (res (server demo_env (request_for ''GET'' ''/index.html''))) =
     [(''Content-Type'', Str ''text/html''),
      (''Content-Length'', Num 20),
      (''Last-Modified'', Str ''Thu, 29 Feb 2024 12:00:00 GMT''),
      (''Cache-Control'', Str ''public, max-age=60'')]
   \<and> body (res (server demo_env (request_for ''GET'' ''/index.html''))) = ''Hello, static world!''
   \<and> map_of (headers (res (server demo_env (request_for ''GET'' ''/index.html'')))) ''Content-Length'' =
       Some (Num (length (body (res (server demo_env (request_for ''GET'' ''/index.html''))))))
   \<and> headers (res (server demo_env (request_for ''GET'' ''/data.bin''))) =
     [(''Content-Type'', Str ''application/octet-stream''),
      (''Content-Length'', Num 3),
      (''Last-Modified'', Str ''Thu, 01 Jan 1970 00:00:00 GMT''),
      (''Cache-Control'', Str ''public, max-age=60'')]
   \<and> body (res (server demo_env (request_for ''GET'' ''/data.bin''))) = ''abc''"
proof -
  let ?st = "\<lparr>isDirectory = False, st_size = 20, mtime = 1709208000123\<rparr>"
  let ?bin = "\<lparr>isDirectory = False, st_size = 3, mtime = 0\<rparr>"
  have s1: "status (res (server demo_env (request_for ''GET'' ''/index.html''))) = Some 200"
    by (simp add: resolves_to_status[OF demo_index_resolves(1)])
  have s2: "status (res (server demo_env (request_for ''GET'' ''/data.bin''))) = Some 200"
    by (simp add: resolves_to_status[OF demo_data_bin_resolves])
  have g: "req_method (request_for ''GET'' u) = ''GET''" for u
    by (simp add: request_for_def)
  note a = full_response[OF demo_index_resolves(1) s1]
  note b = full_response[OF demo_data_bin_resolves s2]
  have t: "getMimeType ''/app/public/index.html'' = ''text/html''"
    using a demo_data_bin(7) by blast
  have o: "getMimeType ''/app/public/data.bin'' = ''application/octet-stream''"
    using b demo_data_bin(8) by blast
  have 1: "headers (res (server demo_env (request_for ''GET'' ''/index.html''))) =
     [(''Content-Type'', Str ''text/html''),
      (''Content-Length'', Num 20),
      (''Last-Modified'', Str ''Thu, 29 Feb 2024 12:00:00 GMT''),
      (''Cache-Control'', Str ''public, max-age=60'')]"
    using a by (simp add: t demo_last_modified)
  have 2: "body (res (server demo_env (request_for ''GET'' ''/index.html''))) = ''Hello, static world!''
     \<and> map_of (headers (res (server demo_env (request_for ''GET'' ''/index.html'')))) ''Content-Length'' =
       Some (Num (length (body (res (server demo_env (request_for ''GET'' ''/index.html''))))))"
    using a g demo_fs(9) by simp
  have 3: "headers (res (server demo_env (request_for ''GET'' ''/data.bin''))) =
     [(''Content-Type'', Str ''application/octet-stream''),
      (''Content-Length'', Num 3),
      (''Last-Modified'', Str ''Thu, 01 Jan 1970 00:00:00 GMT''),
      (''Cache-Control'', Str ''public, max-age=60'')]"
    using b by (simp add: o demo_data_bin(6))
  have 4: "body (res (server demo_env (request_for ''GET'' ''/data.bin''))) = ''abc''"
    using b g demo_data_bin_fs(2) by simp
  show ?thesis
    using 1 2 3 4 by blast
qed

section \<open>An index entry that is a directory\<close>

text \<open>
  Claim C10.  After a directory was found, the handler does not look at what the second
  \<^verbatim>\<open>stat\<close> found: when the entry \<^verbatim>\<open>index.html\<close> exists and is itself a directory, the
  second \<^verbatim>\<open>stat\<close> succeeds and its result goes to \<^verbatim>\<open>serveFile\<close>.  The answer is never a
  4xx rejection; unless the conditional request test holds, it is status 200 with
  \<^verbatim>\<open>Content-Length\<close> and \<^verbatim>\<open>Last-Modified\<close> taken from the metadata of that directory.  Only
  the read stream of a \<^verbatim>\<open>GET\<close> can then fail: the three file system calls are made in
  order, the status given to \<^verbatim>\<open>writeHead\<close> stays 200, and the response is destroyed.
\<close>

theorem index_entry_not_checked:
  assumes "req_method req = ''GET'' \<or> req_method req = ''HEAD''"
    and "\<not> prescreen (url req)"
    and "URL_pathname env (url req) (base_of req) = Some decoded"
    and "isPathSafe env (candidate env decoded)"
    and "fs_stat env (candidate env decoded) = Inr st"
    and "isDirectory st"
    and "fs_stat env (indexPath (candidate env decoded)) = Inr indexStats"
    and "isDirectory indexStats"
  shows "status (res (server env req)) \<in> {Some 200, Some 304}
       \<and> (\<not> notModified env indexStats req \<longrightarrow>
            status (res (server env req)) = Some 200
            \<and> headers (res (server env req)) =
                [(''Content-Type'', Str (getMimeType (indexPath (candidate env decoded)))),
                 (''Content-Length'', Num (st_size indexStats)),
                 (''Last-Modified'', Str (toUTCString (mtime indexStats))),
                 (''Cache-Control'', Str ''public, max-age=60'')])
       \<and> (\<forall>chunks err. \<not> notModified env indexStats req \<and> req_method req = ''GET''
              \<and> fs_read env (indexPath (candidate env decoded)) = (chunks, Some err) \<longrightarrow>
            status (res (server env req)) = Some 200
            \<and> destroyed (res (server env req))
            \<and> fs_ops (server env req) =
                [Stat (candidate env decoded),
                 Stat (indexPath (candidate env decoded)),
                 CreateReadStream (indexPath (candidate env decoded))])"
proof -
  have s: "server env req =
             serveFile env (indexPath (candidate env decoded)) indexStats req
               (stat_world (indexPath (candidate env decoded))
                  (stat_world (candidate env decoded) (fresh req)))"
    unfolding server_fresh handleRequest_allowed[OF assms(1)]
    using assms(2-7) by simp
  have g: "''GET'' \<noteq> ''HEAD''"
    by simp
  show ?thesis
    unfolding s using g
    by (auto simp: serveFile_status serveFile_headers headers200_def serveFile_fs_ops
          serveFile_destroyed fresh_def ServerResponse_def)
qed

theorem index_entry_not_checked_witness:
  "status (res (server demo_env (request_for ''GET'' ''/docs/''))) = Some 200
   \<and> headers (res (server demo_env (request_for ''GET'' ''/docs/''))) =
       [(''Content-Type'', Str ''text/html''),
        (''Content-Length'', Num 4096),
        (''Last-Modified'', Str ''Thu, 29 Feb 2024 12:00:00 GMT''),
        (''Cache-Control'', Str ''public, max-age=60'')]
   \<and> destroyed (res (server demo_env (request_for ''GET'' ''/docs/'')))
   \<and> fs_ops (server demo_env (request_for ''GET'' ''/docs/'')) =
       [Stat ''/app/public/docs/'', Stat ''/app/public/docs/index.html'',
        CreateReadStream ''/app/public/docs/index.html'']
   \<and> isDirectory demo_dir
   \<and> fs_stat demo_env ''/app/public/docs/index.html'' = Inr demo_dir"
proof -
  have d: "isDirectory demo_dir" and z: "st_size demo_dir = 4096" and t: "mtime demo_dir = 1709208000123"
    by (simp_all add: demo_dir_def)
  have p: "URL_pathname demo_env (url (request_for ''GET'' ''/docs/'')) (base_of (request_for ''GET'' ''/docs/''))
             = Some ''/docs/''"
    by (simp add: demo_pathname demo_targets)
  have c: "candidate demo_env ''/docs/'' = ''/app/public/docs/''"
    and i: "indexPath ''/app/public/docs/'' = ''/app/public/docs/index.html''"
    by (simp_all add: demo_candidates)
  have n: "\<not> prescreen (url (request_for ''GET'' ''/docs/''))"
    by (simp add: demo_targets)
  note w = index_entry_not_checked[where env = demo_env and req = "request_for ''GET'' ''/docs/''"
      and decoded = "''/docs/''" and st = demo_dir and indexStats = demo_dir,
      OF demo_allowed(1) n p, unfolded c i, OF demo_safe(6) demo_fs(7) d demo_fs(8) d]
  have g: "req_method (request_for ''GET'' ''/docs/'') = ''GET''"
    by (simp add: request_for_def)
  have u: "\<not> notModified demo_env demo_dir (request_for ''GET'' ''/docs/'')"
    by simp
  have h: "getMimeType ''/app/public/docs/index.html'' = ''text/html''"
    by code_simp
  show ?thesis
    using w u g demo_fs(10) d demo_fs(8) unfolding z t h demo_last_modified by blast
qed

section \<open>\<^verbatim>\<open>HEAD\<close> and \<^verbatim>\<open>GET\<close> for one resource\<close>

lemma sendError_finished [simp]: "finished (res (sendError c m req w))"
  by (simp add: sendError_def effect_defs Let_def del: digits.simps)









end
